theory Spec2Isabelle
  imports Complex_Main
begin

section \<open>CardStack: the data model\<close>

text \<open>
  The development embeds \<^verbatim>\<open>packages/stack/src/views/Stack/CardStack.tsx\<close>.
  JavaScript numbers are modelled as \<^typ>\<open>real\<close> (no rounding, no NaN, no infinities).
  Route keys are assumed not to name properties inherited from \<^verbatim>\<open>Object.prototype\<close>.
\<close>

subsection \<open>Objects and reference equality\<close>

text \<open>
  An object is its address together with its (immutable) fields. The operator
  \<^verbatim>\<open>===\<close> on objects is modelled by HOL equality on \<open>'a obj\<close>: two references are
  identical when they denote the same object, and two objects built at different addresses
  are different objects whatever their fields are.
\<close>

type_synonym ref = nat

datatype 'a obj = Obj (addr: ref) (val: 'a)

datatype error = TypeError

subsection \<open>Types of the component\<close>

datatype StackCardMode = Card | Modal

datatype StackHeaderMode = Float | Screen | NoneMode

datatype GestureDirection = Horizontal | HorizontalInverted | Vertical | VerticalInverted

record Layout =
  width :: real
  height :: real

record EdgeInsets =
  top_inset :: real
  right_inset :: real
  bottom_inset :: real
  left_inset :: real

text \<open>\<^verbatim>\<open>options.safeAreaInsets\<close>: every side is optional.\<close>

record PartialInsets =
  top_opt :: "real option"
  right_opt :: "real option"
  bottom_opt :: "real option"
  left_opt :: "real option"

text \<open>A route; only its key is read by the component (name and params are payload).\<close>

record Route =
  key :: string

text \<open>
  A flattened style value: \<^verbatim>\<open>typeof style.height === 'number'\<close> holds for \<open>Num\<close> only
  (a percentage string or an animated node is \<open>NotNum\<close>).
\<close>

datatype StyleValue = Num real | NotNum string

record HeaderStyle =
  style_height :: "StyleValue option"

text \<open>
  Transition specs and style interpolators are functions and configuration objects that the
  component only passes on; they are identified by a tag. The two \<^verbatim>\<open>forNoAnimation\<close>
  interpolators are named because the component refers to them.
\<close>

datatype TransitionSpec = TransitionSpec nat

datatype CardStyleInterpolator = forNoAnimationCard | CardStyleInterpolator nat

datatype HeaderStyleInterpolator = forNoAnimationHeader | HeaderStyleInterpolator nat

text \<open>\<^verbatim>\<open>StackNavigationOptions\<close>, restricted to the options read here; \<open>None\<close> is \<^verbatim>\<open>undefined\<close>.\<close>

record StackNavigationOptions =
  headerStyle :: "HeaderStyle option"
  safeAreaInsets :: "PartialInsets option"
  headerStatusBarHeight :: "real option"
  gestureDirection :: "GestureDirection option"
  transitionSpec :: "TransitionSpec option"
  cardStyleInterpolator :: "CardStyleInterpolator option"
  headerStyleInterpolator :: "HeaderStyleInterpolator option"
  animationEnabled :: "bool option"

record StackDescriptor =
  options :: StackNavigationOptions

type_synonym StackDescriptorMap = "string \<rightharpoonup> StackDescriptor obj"

definition no_options :: StackNavigationOptions where
  "no_options = \<lparr>headerStyle = None, safeAreaInsets = None, headerStatusBarHeight = None,
     gestureDirection = None, transitionSpec = None, cardStyleInterpolator = None,
     headerStyleInterpolator = None, animationEnabled = None\<rparr>"

text \<open>\<^verbatim>\<open>const FALLBACK_DESCRIPTOR = Object.freeze({ options: {} })\<close>, a module constant at address 0.\<close>

definition FALLBACK_DESCRIPTOR :: "StackDescriptor obj" where
  "FALLBACK_DESCRIPTOR = Obj 0 \<lparr>options = no_options\<rparr>"

text \<open>A transition preset, and the transition configuration handed to a card (same shape).\<close>

record TransitionPreset =
  p_gestureDirection :: GestureDirection
  p_transitionSpec :: TransitionSpec
  p_cardStyleInterpolator :: CardStyleInterpolator
  p_headerStyleInterpolator :: HeaderStyleInterpolator

text \<open>
  What the module imports and this file does not define: the two transition presets of
  \<^verbatim>\<open>TransitionPresets\<close> (platform dependent) and \<^verbatim>\<open>getDefaultHeaderHeight\<close>. They are
  parameters of the model.
\<close>

record Imports =
  DefaultTransition :: TransitionPreset
  ModalTransition :: TransitionPreset
  getDefaultHeaderHeight :: "Layout \<Rightarrow> real \<Rightarrow> real"

subsection \<open>Animated values\<close>

text \<open>
  An \<^verbatim>\<open>Animated.Value\<close> is a mutable cell: the heap maps its address to its current number.
  \<open>fresh\<close> is the next unused address; scene objects are allocated from the same counter.
\<close>

record Heap =
  fresh :: ref
  animated :: "ref \<Rightarrow> real"

definition new_Animated_Value :: "Heap \<Rightarrow> real \<Rightarrow> ref \<times> Heap" where
  "new_Animated_Value h v =
     (fresh h, h\<lparr>fresh := Suc (fresh h), animated := (animated h)(fresh h := v)\<rparr>)"

datatype ExtrapolateType = Extend | Clamp | Identity

record InterpolationConfigType =
  inputRange :: "real list"
  outputRange :: "real list"
  extrapolate :: ExtrapolateType

text \<open>An animated node: a value cell, or an interpolation of a parent node.\<close>

datatype Animated = Value ref | Interpolation Animated InterpolationConfigType

text \<open>
  The library's interpolation of one segment (linear easing): extrapolation on either side,
  then the two degenerate cases, then the linear map.
\<close>

definition interpolate_segment ::
  "real \<Rightarrow> real \<Rightarrow> real \<Rightarrow> real \<Rightarrow> real \<Rightarrow> ExtrapolateType \<Rightarrow> real" where
  "interpolate_segment input inputMin inputMax outputMin outputMax ex =
     (if input < inputMin \<and> ex = Identity then input
      else if input > inputMax \<and> ex = Identity then input
      else
        let result = (if input < inputMin \<and> ex = Clamp then inputMin
                      else if input > inputMax \<and> ex = Clamp then inputMax
                      else input)
        in if outputMin = outputMax then outputMin
           else if inputMin = inputMax then (if input \<le> inputMin then outputMin else outputMax)
           else (result - inputMin) / (inputMax - inputMin) * (outputMax - outputMin) + outputMin)"

text \<open>
  The segment is the first one whose right end is not below the input, the last one
  otherwise (\<^verbatim>\<open>findRange\<close>).
\<close>

fun interpolate_ranges :: "real list \<Rightarrow> real list \<Rightarrow> ExtrapolateType \<Rightarrow> real \<Rightarrow> real" where
  "interpolate_ranges (a # b # c # ins) (oa # ob # oc # outs) ex x =
     (if b \<ge> x then interpolate_segment x a b oa ob ex
      else interpolate_ranges (b # c # ins) (ob # oc # outs) ex x)"
| "interpolate_ranges (a # b # ins) (oa # ob # outs) ex x = interpolate_segment x a b oa ob ex"
| "interpolate_ranges ins outs ex x = x"

text \<open>
  A configuration is rejected (the library throws) unless the input range has at least two
  entries, is non-decreasing, and is as long as the output range.
\<close>

definition checkValidRanges :: "InterpolationConfigType \<Rightarrow> bool" where
  "checkValidRanges config =
     (length (inputRange config) \<ge> 2 \<and> sorted (inputRange config)
      \<and> length (inputRange config) = length (outputRange config))"

definition interpolate :: "InterpolationConfigType \<Rightarrow> real \<Rightarrow> real option" where
  "interpolate config x =
     (if checkValidRanges config
      then Some (interpolate_ranges (inputRange config) (outputRange config) (extrapolate config) x)
      else None)"

text \<open>The current number of a node (\<open>None\<close>: an invalid interpolation).\<close>

fun getValue :: "Heap \<Rightarrow> Animated \<Rightarrow> real option" where
  "getValue h (Value g) = Some (animated h g)"
| "getValue h (Interpolation parent config) =
     (case getValue h parent of None \<Rightarrow> None | Some v \<Rightarrow> interpolate config v)"

section \<open>Distance and progress\<close>

text \<open>
  Modelled from the spec: \<^verbatim>\<open>utils/getDistanceForDirection\<close> is imported and not defined in
  this file. Section 4.1 and the first testable property give its result: the magnitude is
  the dimension of the direction's axis and the sign follows the direction (negative for the
  inverted directions).
\<close>

definition getDistanceForDirection :: "Layout \<Rightarrow> GestureDirection \<Rightarrow> real" where
  "getDistanceForDirection layout direction =
     (case direction of
        Vertical \<Rightarrow> height layout
      | VerticalInverted \<Rightarrow> - height layout
      | Horizontal \<Rightarrow> width layout
      | HorizontalInverted \<Rightarrow> - width layout)"

definition getDistanceFromOptions ::
  "Imports \<Rightarrow> StackCardMode \<Rightarrow> Layout \<Rightarrow> StackDescriptor obj option \<Rightarrow> real" where
  "getDistanceFromOptions env mode layout descriptor =
     (let opts = (case descriptor of None \<Rightarrow> no_options | Some d \<Rightarrow> options (val d));
          direction = (case gestureDirection opts of
                         None \<Rightarrow> (if mode = Modal
                                  then p_gestureDirection (ModalTransition env)
                                  else p_gestureDirection (DefaultTransition env))
                       | Some d \<Rightarrow> d)
      in getDistanceForDirection layout direction)"

definition getProgressFromGesture ::
  "Imports \<Rightarrow> StackCardMode \<Rightarrow> Animated \<Rightarrow> Layout \<Rightarrow> StackDescriptor obj option \<Rightarrow> Animated" where
  "getProgressFromGesture env mode gesture layout descriptor =
     (let distance = getDistanceFromOptions env mode
                       \<lparr>width = max 1 (width layout), height = max 1 (height layout)\<rparr>
                       descriptor
      in if distance > 0
         then Interpolation gesture
                \<lparr>inputRange = [0, distance], outputRange = [1, 0], extrapolate = Extend\<rparr>
         else Interpolation gesture
                \<lparr>inputRange = [distance, 0], outputRange = [0, 1], extrapolate = Extend\<rparr>)"

section \<open>Header heights\<close>

text \<open>\<^verbatim>\<open>{ ...insets, ...options.safeAreaInsets }\<close>: a side given by the route overrides the inset.\<close>

definition spread_insets :: "EdgeInsets \<Rightarrow> PartialInsets option \<Rightarrow> EdgeInsets" where
  "spread_insets insets partial =
     (case partial of
        None \<Rightarrow> insets
      | Some p \<Rightarrow>
          \<lparr>top_inset = (case top_opt p of None \<Rightarrow> top_inset insets | Some v \<Rightarrow> v),
           right_inset = (case right_opt p of None \<Rightarrow> right_inset insets | Some v \<Rightarrow> v),
           bottom_inset = (case bottom_opt p of None \<Rightarrow> bottom_inset insets | Some v \<Rightarrow> v),
           left_inset = (case left_opt p of None \<Rightarrow> left_inset insets | Some v \<Rightarrow> v)\<rparr>)"

text \<open>The body of the reducer: the height stored for the route \<open>curr'\<close>.\<close>

definition headerHeightOf ::
  "Imports \<Rightarrow> EdgeInsets \<Rightarrow> StackDescriptorMap \<Rightarrow> Layout \<Rightarrow> (string \<rightharpoonup> real) \<Rightarrow> Route obj \<Rightarrow> real" where
  "headerHeightOf env insets descriptors layout previous curr' =
     (let opts = (case descriptors (key (val curr')) of
                    None \<Rightarrow> no_options
                  | Some d \<Rightarrow> options (val d));
          style = (case headerStyle opts of None \<Rightarrow> \<lparr>style_height = None\<rparr> | Some s \<Rightarrow> s);
          height' = (case style_height style of
                       Some (Num n) \<Rightarrow> Some n
                     | _ \<Rightarrow> previous (key (val curr')));
          safeAreaInsets' = spread_insets insets (safeAreaInsets opts);
          headerStatusBarHeight' = (case headerStatusBarHeight opts of
                                      None \<Rightarrow> top_inset safeAreaInsets'
                                    | Some v \<Rightarrow> v)
      in case height' of
           Some n \<Rightarrow> n
         | None \<Rightarrow> getDefaultHeaderHeight env layout headerStatusBarHeight')"

definition getHeaderHeights ::
  "Imports \<Rightarrow> Route obj list \<Rightarrow> EdgeInsets \<Rightarrow> StackDescriptorMap \<Rightarrow> Layout
     \<Rightarrow> (string \<rightharpoonup> real) \<Rightarrow> (string \<rightharpoonup> real)" where
  "getHeaderHeights env routes insets descriptors layout previous =
     foldl (\<lambda>acc curr.
              acc(key (val curr) \<mapsto> headerHeightOf env insets descriptors layout previous curr))
           Map.empty routes"

section \<open>The component: props, state, scenes\<close>

record Progress =
  current :: Animated
  "next" :: "Animated option"
  previous :: "Animated option"

text \<open>
  The eight entries of \<^verbatim>\<open>__memo\<close>: route, layout, descriptor, next descriptor, previous
  descriptor, own gesture, next gesture, previous gesture. Comparing two memo arrays entry by
  entry with \<^verbatim>\<open>===\<close> is equality of the tuples.
\<close>

type_synonym Memo =
  "Route obj \<times> Layout obj \<times> StackDescriptor obj \<times> StackDescriptor obj option
   \<times> StackDescriptor obj option \<times> ref \<times> ref option \<times> ref option"

record Scene =
  route :: "Route obj"
  descriptor :: "StackDescriptor obj"
  progress :: Progress
  memo :: Memo

text \<open>The props read by the derivation and by the per-screen part of render.\<close>

record Props =
  mode :: StackCardMode
  insets :: EdgeInsets
  descriptors :: "StackDescriptorMap obj"
  routes :: "Route obj list obj"
  openingRouteKeys :: "string list"
  headerMode :: StackHeaderMode
  activeLimit :: "nat option"

text \<open>The state; \<open>s_routes\<close> and \<open>s_descriptors\<close> are \<^verbatim>\<open>state.routes\<close> and \<^verbatim>\<open>state.descriptors\<close>.\<close>

record State =
  s_routes :: "Route obj list obj"
  s_descriptors :: "StackDescriptorMap obj"
  scenes :: "Scene obj list"
  gestures :: "string \<rightharpoonup> ref"
  layout :: "Layout obj"
  headerHeights :: "string \<rightharpoonup> real"

text \<open>Reading an array at any index: \<^verbatim>\<open>undefined\<close> outside of it (also at \<open>-1\<close>).\<close>

definition nth_opt :: "'a list \<Rightarrow> int \<Rightarrow> 'a option" where
  "nth_opt xs i = (if 0 \<le> i \<and> i < int (length xs) then Some (xs ! nat i) else None)"

text \<open>
  \<^verbatim>\<open>descriptors[route?.key]\<close>: with no route the property key is \<^verbatim>\<open>undefined\<close>, which
  JavaScript reads as the property named "undefined".
\<close>

definition optional_key :: "Route obj option \<Rightarrow> string" where
  "optional_key r = (case r of None \<Rightarrow> ''undefined'' | Some x \<Rightarrow> key (val x))"

section \<open>getDerivedStateFromProps\<close>

text \<open>One step of the reducer that builds \<open>gestures\<close>; the heap is threaded for the allocations.\<close>

definition gestures_step ::
  "Imports \<Rightarrow> Props \<Rightarrow> State \<Rightarrow> Heap \<times> (string \<rightharpoonup> ref) \<Rightarrow> Route obj
     \<Rightarrow> Heap \<times> (string \<rightharpoonup> ref)" where
  "gestures_step env props state hacc curr' =
     (let h = fst hacc; acc = snd hacc;
          descriptor = val (descriptors props) (key (val curr'));
          enabled = (case descriptor of None \<Rightarrow> None | Some d \<Rightarrow> animationEnabled (options (val d)))
      in case gestures state (key (val curr')) of
           Some g \<Rightarrow> (h, acc(key (val curr') \<mapsto> g))
         | None \<Rightarrow>
             let (g, h') = new_Animated_Value h
                   (if key (val curr') \<in> set (openingRouteKeys props) \<and> enabled \<noteq> Some False
                    then getDistanceFromOptions env (mode props) (val (layout state)) descriptor
                    else 0)
             in (h', acc(key (val curr') \<mapsto> g)))"

definition gestures_reduce ::
  "Imports \<Rightarrow> Props \<Rightarrow> State \<Rightarrow> Heap \<Rightarrow> Heap \<times> (string \<rightharpoonup> ref)" where
  "gestures_reduce env props state h =
     foldl (gestures_step env props state) (h, Map.empty) (val (routes props))"

text \<open>The dependencies of the scene at \<open>index\<close>, given the gesture of its route.\<close>

definition previousRoute :: "Props \<Rightarrow> nat \<Rightarrow> Route obj option" where
  "previousRoute props index = nth_opt (val (routes props)) (int index - 1)"

definition nextRoute :: "Props \<Rightarrow> nat \<Rightarrow> Route obj option" where
  "nextRoute props index = nth_opt (val (routes props)) (int index + 1)"

definition resolve_descriptor :: "Props \<Rightarrow> State \<Rightarrow> nat \<Rightarrow> Route obj \<Rightarrow> StackDescriptor obj" where
  "resolve_descriptor props state index r =
     (case val (descriptors props) (key (val r)) of
        Some d \<Rightarrow> d
      | None \<Rightarrow>
         (case val (s_descriptors state) (key (val r)) of
            Some d \<Rightarrow> d
          | None \<Rightarrow>
             (case nth_opt (scenes state) (int index) of
                Some oldScene \<Rightarrow> descriptor (val oldScene)
              | None \<Rightarrow> FALLBACK_DESCRIPTOR)))"

definition adjacent_descriptor :: "Props \<Rightarrow> State \<Rightarrow> Route obj option \<Rightarrow> StackDescriptor obj option" where
  "adjacent_descriptor props state r =
     (case val (descriptors props) (optional_key r) of
        Some d \<Rightarrow> Some d
      | None \<Rightarrow> val (s_descriptors state) (optional_key r))"

definition adjacent_gesture :: "(string \<rightharpoonup> ref) \<Rightarrow> Route obj option \<Rightarrow> ref option" where
  "adjacent_gesture gs r = (case r of None \<Rightarrow> None | Some x \<Rightarrow> gs (key (val x)))"

definition scene_memo :: "Props \<Rightarrow> State \<Rightarrow> (string \<rightharpoonup> ref) \<Rightarrow> nat \<Rightarrow> Route obj \<Rightarrow> ref \<Rightarrow> Memo" where
  "scene_memo props state gs index r currentGesture =
     (r, layout state, resolve_descriptor props state index r,
      adjacent_descriptor props state (nextRoute props index),
      adjacent_descriptor props state (previousRoute props index),
      currentGesture,
      adjacent_gesture gs (nextRoute props index),
      adjacent_gesture gs (previousRoute props index))"

text \<open>
  The callback of \<^verbatim>\<open>props.routes.map\<close>. The scene literal is built at address \<open>a\<close>; the old
  scene is returned instead when its memo equals the new one. A route without a gesture
  would make \<^verbatim>\<open>gesture.interpolate\<close> throw.
\<close>

definition scene_at ::
  "Imports \<Rightarrow> Props \<Rightarrow> State \<Rightarrow> (string \<rightharpoonup> ref) \<Rightarrow> ref \<Rightarrow> nat \<times> Route obj
     \<Rightarrow> error + Scene obj" where
  "scene_at env props state gs a ir =
     (let index = fst ir; r = snd ir;
          oldScene = nth_opt (scenes state) (int index);
          nextGesture = adjacent_gesture gs (nextRoute props index);
          previousGesture = adjacent_gesture gs (previousRoute props index);
          descriptor' = resolve_descriptor props state index r;
          nextDescriptor = adjacent_descriptor props state (nextRoute props index);
          previousDescriptor = adjacent_descriptor props state (previousRoute props index)
      in case gs (key (val r)) of
           None \<Rightarrow> Inl TypeError
         | Some currentGesture \<Rightarrow>
             let scene = Obj (a + index)
                   \<lparr>route = r,
                    descriptor = descriptor',
                    progress =
                      \<lparr>current = getProgressFromGesture env (mode props) (Value currentGesture)
                                   (val (layout state)) (Some descriptor'),
                       next = map_option
                                (\<lambda>g. getProgressFromGesture env (mode props) (Value g)
                                       (val (layout state)) nextDescriptor)
                                nextGesture,
                       previous = map_option
                                (\<lambda>g. getProgressFromGesture env (mode props) (Value g)
                                       (val (layout state)) previousDescriptor)
                                previousGesture\<rparr>,
                    memo = scene_memo props state gs index r currentGesture\<rparr>
             in case oldScene of
                  None \<Rightarrow> Inr scene
                | Some old \<Rightarrow> if memo (val old) = memo (val scene) then Inr old else Inr scene)"

fun sequence :: "(error + 'a) list \<Rightarrow> error + 'a list" where
  "sequence [] = Inr []"
| "sequence (x # xs) =
     (case x of
        Inl e \<Rightarrow> Inl e
      | Inr y \<Rightarrow> (case sequence xs of Inl e \<Rightarrow> Inl e | Inr ys \<Rightarrow> Inr (y # ys)))"

text \<open>
  The result is \<open>Inl\<close> for an exception, \<open>Inr (h, None)\<close> for \<^verbatim>\<open>null\<close> (no update) and
  \<open>Inr (h, Some s)\<close> for the state after React has merged the returned fields (the layout
  is not among them and stays).
\<close>

definition getDerivedStateFromProps ::
  "Imports \<Rightarrow> Heap \<Rightarrow> Props \<Rightarrow> State \<Rightarrow> error + (Heap \<times> State option)" where
  "getDerivedStateFromProps env h props state =
     (if routes props = s_routes state \<and> descriptors props = s_descriptors state
      then Inr (h, None)
      else
        let (h1, gs) = gestures_reduce env props state h;
            self = val (routes props)
        in case sequence (map (scene_at env props state gs (fresh h1)) (enumerate 0 self)) of
             Inl e \<Rightarrow> Inl e
           | Inr scs \<Rightarrow>
               Inr (h1\<lparr>fresh := fresh h1 + length self\<rparr>,
                    Some \<lparr>s_routes = routes props,
                          s_descriptors = descriptors props,
                          scenes = scs,
                          gestures = gs,
                          layout = layout state,
                          headerHeights =
                            getHeaderHeights env (val (routes props)) (insets props)
                              (val (s_descriptors state)) (val (layout state))
                              (headerHeights state)\<rparr>))"

section \<open>Event handlers\<close>

text \<open>
  \<^verbatim>\<open>handleHeaderLayout\<close>: the updater passed to \<^verbatim>\<open>setState\<close>; \<open>None\<close> is \<^verbatim>\<open>null\<close>, which
  React takes as no update and no re-render.
\<close>

definition handleHeaderLayout :: "Route obj \<Rightarrow> real \<Rightarrow> State \<Rightarrow> State option" where
  "handleHeaderLayout r height' state =
     (let previousHeight = headerHeights state (key (val r))
      in if previousHeight = Some height'
         then None
         else Some (state\<lparr>headerHeights := (headerHeights state)(key (val r) \<mapsto> height')\<rparr>))"

text \<open>\<^verbatim>\<open>handleLayout\<close>: the new layout object is allocated at the next free address.\<close>

definition handleLayout ::
  "Imports \<Rightarrow> Heap \<Rightarrow> Props \<Rightarrow> real \<Rightarrow> real \<Rightarrow> State \<Rightarrow> Heap \<times> State option" where
  "handleLayout env h props width' height' state =
     (let layout' = Obj (fresh h) \<lparr>width = width', height = height'\<rparr>;
          h' = h\<lparr>fresh := Suc (fresh h)\<rparr>
      in if height' = height (val (layout state)) \<and> width' = width (val (layout state))
         then (h', None)
         else (h', Some (state\<lparr>layout := layout',
                               headerHeights :=
                                 getHeaderHeights env (val (routes props)) (insets props)
                                   (val (s_descriptors state)) (val layout')
                                   (headerHeights state)\<rparr>)))"

section \<open>The per-screen part of render\<close>

definition EPSILON :: real where
  "EPSILON = 1 / 100"

text \<open>
  The \<^verbatim>\<open>activeLimit\<close> that render works with: the prop, and
  \<^verbatim>\<open>mode === 'modal' ? 2 : 1\<close> when the prop is not given.
\<close>

definition resolved_activeLimit :: "Props \<Rightarrow> nat" where
  "resolved_activeLimit props =
     (case activeLimit props of
        None \<Rightarrow> (if mode props = Modal then 2 else 1)
      | Some n \<Rightarrow> n)"

text \<open>
  The \<^verbatim>\<open>active\<close> prop of a screen, the number 1 or an animated node, from
  \<^verbatim>\<open>scenes[index + activeLimit]\<close>.
\<close>

datatype ActiveProp = Static real | Dynamic Animated

definition isScreenActive :: "Props \<Rightarrow> Scene obj list \<Rightarrow> nat \<Rightarrow> ActiveProp" where
  "isScreenActive props scs index =
     (case nth_opt scs (int index + int (resolved_activeLimit props)) of
        Some sceneForActivity \<Rightarrow>
          Dynamic (Interpolation (current (progress (val sceneForActivity)))
                     \<lparr>inputRange = [0, 1 - EPSILON, 1], outputRange = [1, 1, 0],
                      extrapolate = Clamp\<rparr>)
      | None \<Rightarrow> Static 1)"

fun active_value :: "Heap \<Rightarrow> ActiveProp \<Rightarrow> real option" where
  "active_value h (Static v) = Some v"
| "active_value h (Dynamic node) = getValue h node"

definition defaultTransitionPreset :: "Imports \<Rightarrow> StackCardMode \<Rightarrow> StackHeaderMode \<Rightarrow> TransitionPreset" where
  "defaultTransitionPreset env m hm =
     (let preset = (if m = Modal then ModalTransition env else DefaultTransition env)
      in if hm = Screen
         then preset\<lparr>p_headerStyleInterpolator := forNoAnimationHeader\<rparr>
         else preset)"

text \<open>
  The destructuring with defaults that render applies to a scene's options, once for the
  screen's own scene and once for the next scene.
\<close>

definition config_of_options :: "TransitionPreset \<Rightarrow> StackNavigationOptions \<Rightarrow> TransitionPreset" where
  "config_of_options preset opts =
     \<lparr>p_gestureDirection =
        (case gestureDirection opts of None \<Rightarrow> p_gestureDirection preset | Some v \<Rightarrow> v),
      p_transitionSpec =
        (case transitionSpec opts of None \<Rightarrow> p_transitionSpec preset | Some v \<Rightarrow> v),
      p_cardStyleInterpolator =
        (case cardStyleInterpolator opts of
           None \<Rightarrow> (if animationEnabled opts = Some False
                    then forNoAnimationCard
                    else p_cardStyleInterpolator preset)
         | Some v \<Rightarrow> v),
      p_headerStyleInterpolator =
        (case headerStyleInterpolator opts of
           None \<Rightarrow> p_headerStyleInterpolator preset
         | Some v \<Rightarrow> v)\<rparr>"

text \<open>
  \<^verbatim>\<open>transitionConfig\<close> of the screen at \<open>index\<close> of \<open>len\<close> routes; reading the options of a
  missing scene throws.
\<close>

definition transitionConfig ::
  "TransitionPreset \<Rightarrow> Scene obj list \<Rightarrow> nat \<Rightarrow> nat \<Rightarrow> error + TransitionPreset" where
  "transitionConfig preset scs index len =
     (case nth_opt scs (int index) of
        None \<Rightarrow> Inl TypeError
      | Some scene \<Rightarrow>
          let own = config_of_options preset (options (val (descriptor (val scene))))
          in if int index \<noteq> int len - 1
             then (case nth_opt scs (int index + 1) of
                     Some nextScene \<Rightarrow>
                       Inr (config_of_options preset (options (val (descriptor (val nextScene)))))
                   | None \<Rightarrow> Inr own)
             else Inr own)"

section \<open>The component over time\<close>

text \<open>
  The constructor: no routes, no scenes, no gestures, the window's dimensions as layout, the
  descriptors of the first props. The empty \<^verbatim>\<open>routes\<close> array and the layout are new objects.
\<close>

definition constructor :: "Heap \<Rightarrow> Props \<Rightarrow> real \<Rightarrow> real \<Rightarrow> Heap \<times> State" where
  "constructor h props width' height' =
     (h\<lparr>fresh := fresh h + 2\<rparr>,
      \<lparr>s_routes = Obj (fresh h) [],
       s_descriptors = descriptors props,
       scenes = [],
       gestures = Map.empty,
       layout = Obj (fresh h + 1) \<lparr>width = width', height = height'\<rparr>,
       headerHeights = Map.empty\<rparr>)"

text \<open>React merges an update into the state; \<^verbatim>\<open>null\<close> leaves the state as it is.\<close>

definition apply_update :: "State \<Rightarrow> State option \<Rightarrow> State" where
  "apply_update state u = (case u of None \<Rightarrow> state | Some s \<Rightarrow> s)"

record Component =
  c_heap :: Heap
  c_props :: Props
  c_state :: State

text \<open>A render pass: React calls \<^verbatim>\<open>getDerivedStateFromProps\<close> with the props and the state.\<close>

definition derive :: "Imports \<Rightarrow> Heap \<Rightarrow> Props \<Rightarrow> State \<Rightarrow> error + Component" where
  "derive env h props state =
     (case getDerivedStateFromProps env h props state of
        Inl e \<Rightarrow> Inl e
      | Inr (h', u) \<Rightarrow> Inr \<lparr>c_heap = h', c_props = props, c_state = apply_update state u\<rparr>)"

datatype Event =
    ReceiveProps Props
  | LayoutEvent real real
  | HeaderLayoutEvent "Route obj" real

text \<open>
  New props are followed by a render pass. An updater that returns \<^verbatim>\<open>null\<close> causes no
  render; one that returns an update is followed by a render pass on the updated state.
\<close>

fun dispatch :: "Imports \<Rightarrow> Component \<Rightarrow> Event \<Rightarrow> error + Component" where
  "dispatch env c (ReceiveProps p) = derive env (c_heap c) p (c_state c)"
| "dispatch env c (LayoutEvent width' height') =
     (case handleLayout env (c_heap c) (c_props c) width' height' (c_state c) of
        (h', None) \<Rightarrow> Inr (c\<lparr>c_heap := h'\<rparr>)
      | (h', Some s) \<Rightarrow> derive env h' (c_props c) s)"
| "dispatch env c (HeaderLayoutEvent r height') =
     (case handleHeaderLayout r height' (c_state c) of
        None \<Rightarrow> Inr c
      | Some s \<Rightarrow> derive env (c_heap c) (c_props c) s)"

fun run :: "Imports \<Rightarrow> Component \<Rightarrow> Event list \<Rightarrow> error + Component" where
  "run env c [] = Inr c"
| "run env c (e # es) = (case dispatch env c e of Inl x \<Rightarrow> Inl x | Inr c' \<Rightarrow> run env c' es)"

text \<open>The props an event delivers, if any.\<close>

fun received :: "Event \<Rightarrow> Props option" where
  "received (ReceiveProps p) = Some p"
| "received (LayoutEvent width' height') = None"
| "received (HeaderLayoutEvent r height') = None"

definition route_keys :: "Props \<Rightarrow> string set" where
  "route_keys props = (\<lambda>r. key (val r)) ` set (val (routes props))"

section \<open>Notions used in the statements\<close>

text \<open>
  The argument of \<^verbatim>\<open>new Animated.Value\<close> in the gestures reducer, as a function of the
  route key.
\<close>

definition initial_gesture_value :: "Imports \<Rightarrow> Props \<Rightarrow> State \<Rightarrow> string \<Rightarrow> real" where
  "initial_gesture_value env props state k =
     (if k \<in> set (openingRouteKeys props)
         \<and> (case val (descriptors props) k of
               None \<Rightarrow> None
             | Some d \<Rightarrow> animationEnabled (options (val d))) \<noteq> Some False
      then getDistanceFromOptions env (mode props) (val (layout state)) (val (descriptors props) k)
      else 0)"

text \<open>
  The accumulator holds, for \<open>k\<close>, a cell allocated at or after \<open>f0\<close> whose number is \<open>v\<close>.
\<close>

definition tracked :: "ref \<Rightarrow> string \<Rightarrow> real \<Rightarrow> Heap \<times> (string \<rightharpoonup> ref) \<Rightarrow> bool" where
  "tracked f0 k v hacc =
     (\<exists>g. snd hacc k = Some g \<and> f0 \<le> g \<and> g < fresh (fst hacc) \<and> animated (fst hacc) g = v)"

text \<open>
  The three descriptors the scene at an index depends on: its own, the next route's and the
  previous route's, as the derivation resolves them.
\<close>

definition descriptors_at ::
  "Props \<Rightarrow> State \<Rightarrow> nat
     \<Rightarrow> (StackDescriptor obj \<times> StackDescriptor obj option \<times> StackDescriptor obj option) option" where
  "descriptors_at props state index =
     (case nth_opt (val (routes props)) (int index) of
        None \<Rightarrow> None
      | Some r \<Rightarrow>
          Some (resolve_descriptor props state index r,
                adjacent_descriptor props state (nextRoute props index),
                adjacent_descriptor props state (previousRoute props index)))"

text \<open>
  The words of the header height rule: the explicit numeric \<^verbatim>\<open>headerStyle.height\<close> of the
  route's descriptor, and the status bar height resolved for the route (the descriptor's
  \<^verbatim>\<open>headerStatusBarHeight\<close>, else the top inset with the route's own override).
\<close>

definition explicit_height :: "StackDescriptorMap \<Rightarrow> string \<Rightarrow> real option" where
  "explicit_height ds k =
     (case ds k of
        None \<Rightarrow> None
      | Some d \<Rightarrow>
          (case headerStyle (options (val d)) of
             None \<Rightarrow> None
           | Some st \<Rightarrow> (case style_height st of Some (Num n) \<Rightarrow> Some n | _ \<Rightarrow> None)))"

definition status_bar_height :: "EdgeInsets \<Rightarrow> StackDescriptorMap \<Rightarrow> string \<Rightarrow> real" where
  "status_bar_height ins ds k =
     (case ds k of
        None \<Rightarrow> top_inset ins
      | Some d \<Rightarrow>
          (case headerStatusBarHeight (options (val d)) of
             Some v \<Rightarrow> v
           | None \<Rightarrow>
               (case safeAreaInsets (options (val d)) of
                  None \<Rightarrow> top_inset ins
                | Some p \<Rightarrow> (case top_opt p of None \<Rightarrow> top_inset ins | Some t \<Rightarrow> t))))"

section \<open>A running example\<close>

text \<open>
  A card stack on a 320 by 640 layout: first the route \<open>a\<close> alone, then \<open>a\<close> with the
  opening route \<open>b\<close>, whose gestures are vertical.
\<close>

definition example_header_height :: "Layout \<Rightarrow> real \<Rightarrow> real" where
  "example_header_height lay statusBarHeight = 56 + statusBarHeight"

definition example_imports :: Imports where
  "example_imports =
     \<lparr>DefaultTransition =
        \<lparr>p_gestureDirection = Horizontal, p_transitionSpec = TransitionSpec 0,
         p_cardStyleInterpolator = CardStyleInterpolator 0,
         p_headerStyleInterpolator = HeaderStyleInterpolator 0\<rparr>,
      ModalTransition =
        \<lparr>p_gestureDirection = Vertical, p_transitionSpec = TransitionSpec 1,
         p_cardStyleInterpolator = CardStyleInterpolator 1,
         p_headerStyleInterpolator = HeaderStyleInterpolator 1\<rparr>,
      getDefaultHeaderHeight = example_header_height\<rparr>"

definition route_a :: "Route obj" where "route_a = Obj 10 \<lparr>key = ''a''\<rparr>"
definition route_b :: "Route obj" where "route_b = Obj 11 \<lparr>key = ''b''\<rparr>"

definition descriptor_a :: "StackDescriptor obj" where
  "descriptor_a = Obj 20 \<lparr>options = no_options\<rparr>"

definition descriptor_b :: "StackDescriptor obj" where
  "descriptor_b = Obj 21 \<lparr>options = no_options\<lparr>gestureDirection := Some Vertical\<rparr>\<rparr>"

definition example_insets :: EdgeInsets where
  "example_insets = \<lparr>top_inset = 44, right_inset = 0, bottom_inset = 34, left_inset = 0\<rparr>"

definition example_layout :: "Layout obj" where
  "example_layout = Obj 41 \<lparr>width = 320, height = 640\<rparr>"

definition ex_props1 :: Props where
  "ex_props1 = \<lparr>mode = Card, insets = example_insets,
             descriptors = Obj 30 [''a'' \<mapsto> descriptor_a],
             routes = Obj 31 [route_a],
             openingRouteKeys = [], headerMode = Float, activeLimit = None\<rparr>"

definition ex_heap0 :: Heap where
  "ex_heap0 = \<lparr>fresh = 100, animated = (\<lambda>g. 0)\<rparr>"

definition ex_state0 :: State where
  "ex_state0 = \<lparr>s_routes = Obj 40 [], s_descriptors = Obj 30 [''a'' \<mapsto> descriptor_a],
              scenes = [], gestures = Map.empty, layout = example_layout,
              headerHeights = Map.empty\<rparr>"

definition ex_scene_a1 :: "Scene obj" where
  "ex_scene_a1 = Obj 101
     \<lparr>route = route_a, descriptor = descriptor_a,
      progress = \<lparr>current = Interpolation (Value 100)
                    \<lparr>inputRange = [0, 320], outputRange = [1, 0], extrapolate = Extend\<rparr>,
                  next = None, previous = None\<rparr>,
      memo = (route_a, example_layout, descriptor_a, None, None, 100, None, None)\<rparr>"

definition ex_heap1 :: Heap where
  "ex_heap1 = \<lparr>fresh = 102, animated = (\<lambda>g. 0)(100 := 0)\<rparr>"

definition ex_state1 :: State where
  "ex_state1 = \<lparr>s_routes = Obj 31 [route_a], s_descriptors = Obj 30 [''a'' \<mapsto> descriptor_a],
              scenes = [ex_scene_a1], gestures = [''a'' \<mapsto> 100], layout = example_layout,
              headerHeights = [''a'' \<mapsto> 100]\<rparr>"

definition ex_props2 :: Props where
  "ex_props2 = \<lparr>mode = Card, insets = example_insets,
             descriptors = Obj 32 [''a'' \<mapsto> descriptor_a, ''b'' \<mapsto> descriptor_b],
             routes = Obj 33 [route_a, route_b],
             openingRouteKeys = [''b''], headerMode = Float, activeLimit = None\<rparr>"

definition ex_scene_a2 :: "Scene obj" where
  "ex_scene_a2 = Obj 103
     \<lparr>route = route_a, descriptor = descriptor_a,
      progress = \<lparr>current = Interpolation (Value 100)
                    \<lparr>inputRange = [0, 320], outputRange = [1, 0], extrapolate = Extend\<rparr>,
                  next = Some (Interpolation (Value 102)
                    \<lparr>inputRange = [0, 640], outputRange = [1, 0], extrapolate = Extend\<rparr>),
                  previous = None\<rparr>,
      memo = (route_a, example_layout, descriptor_a, Some descriptor_b, None, 100, Some 102, None)\<rparr>"

definition ex_scene_b2 :: "Scene obj" where
  "ex_scene_b2 = Obj 104
     \<lparr>route = route_b, descriptor = descriptor_b,
      progress = \<lparr>current = Interpolation (Value 102)
                    \<lparr>inputRange = [0, 640], outputRange = [1, 0], extrapolate = Extend\<rparr>,
                  next = None,
                  previous = Some (Interpolation (Value 100)
                    \<lparr>inputRange = [0, 320], outputRange = [1, 0], extrapolate = Extend\<rparr>)\<rparr>,
      memo = (route_b, example_layout, descriptor_b, None, Some descriptor_a, 102, None, Some 100)\<rparr>"

definition ex_heap2 :: Heap where
  "ex_heap2 = \<lparr>fresh = 105, animated = (\<lambda>g. 0)(100 := 0, 102 := 640)\<rparr>"

definition ex_state2 :: State where
  "ex_state2 = \<lparr>s_routes = Obj 33 [route_a, route_b],
              s_descriptors = Obj 32 [''a'' \<mapsto> descriptor_a, ''b'' \<mapsto> descriptor_b],
              scenes = [ex_scene_a2, ex_scene_b2], gestures = [''a'' \<mapsto> 100, ''b'' \<mapsto> 102],
              layout = example_layout,
              headerHeights = [''a'' \<mapsto> 100, ''b'' \<mapsto> 100]\<rparr>"

definition ex_props3 :: Props where
  "ex_props3 = \<lparr>mode = Card, insets = example_insets,
             descriptors = Obj 34 [''a'' \<mapsto> descriptor_a, ''b'' \<mapsto> descriptor_b],
             routes = Obj 35 [route_a, route_b],
             openingRouteKeys = [], headerMode = Float, activeLimit = None\<rparr>"

definition ex_heap3 :: Heap where
  "ex_heap3 = \<lparr>fresh = 107, animated = (\<lambda>g. 0)(100 := 0, 102 := 640)\<rparr>"

definition ex_state3 :: State where
  "ex_state3 = \<lparr>s_routes = Obj 35 [route_a, route_b],
              s_descriptors = Obj 34 [''a'' \<mapsto> descriptor_a, ''b'' \<mapsto> descriptor_b],
              scenes = [ex_scene_a2, ex_scene_b2], gestures = [''a'' \<mapsto> 100, ''b'' \<mapsto> 102],
              layout = example_layout,
              headerHeights = [''a'' \<mapsto> 100, ''b'' \<mapsto> 100]\<rparr>"

text \<open>The component after the first derivation of the example.\<close>

definition ex_component1 :: Component where
  "ex_component1 = \<lparr>c_heap = ex_heap1, c_props = ex_props1, c_state = ex_state1\<rparr>"

definition ex_heap4 :: Heap where
  "ex_heap4 = \<lparr>fresh = 109, animated = (\<lambda>g. 0)(100 := 0, 102 := 640)\<rparr>"

text \<open>The first props with the route \<open>a\<close> opening, and a state whose layout is not measured yet.\<close>

definition ex_props_opening :: Props where
  "ex_props_opening = ex_props1\<lparr>openingRouteKeys := [''a'']\<rparr>"

definition ex_state_unmeasured :: State where
  "ex_state_unmeasured = ex_state0\<lparr>layout := Obj 41 \<lparr>width = 0, height = 0\<rparr>\<rparr>"

text \<open>The example continued: the descriptor of \<open>a\<close> is replaced by one with a header of height 80.\<close>

definition descriptor_a_tall :: "StackDescriptor obj" where
  "descriptor_a_tall =
     Obj 22 \<lparr>options = no_options\<lparr>headerStyle := Some \<lparr>style_height = Some (Num 80)\<rparr>\<rparr>\<rparr>"








text \<open>
  A stack of four idle routes, derived from the constructor's state: \<open>b\<close> has vertical
  gestures, \<open>c\<close> has no options, \<open>d\<close> has its animation disabled.
\<close>

definition route_c :: "Route obj" where "route_c = Obj 12 \<lparr>key = ''c''\<rparr>"
definition route_d :: "Route obj" where "route_d = Obj 13 \<lparr>key = ''d''\<rparr>"

definition descriptor_c :: "StackDescriptor obj" where
  "descriptor_c = Obj 23 \<lparr>options = no_options\<rparr>"

definition descriptor_d :: "StackDescriptor obj" where
  "descriptor_d = Obj 24 \<lparr>options = no_options\<lparr>animationEnabled := Some False\<rparr>\<rparr>"

definition ex_props4 :: Props where
  "ex_props4 = \<lparr>mode = Card, insets = example_insets,
     descriptors = Obj 60 [''a'' \<mapsto> descriptor_a, ''b'' \<mapsto> descriptor_b,
                           ''c'' \<mapsto> descriptor_c, ''d'' \<mapsto> descriptor_d],
     routes = Obj 61 [route_a, route_b, route_c, route_d],
     openingRouteKeys = [], headerMode = Float, activeLimit = None\<rparr>"

definition ex_stack4 :: "Heap \<times> State" where
  "ex_stack4 =
     (case getDerivedStateFromProps example_imports ex_heap0 ex_props4 ex_state0 of
        Inr (h, Some s) \<Rightarrow> (h, s)
      | _ \<Rightarrow> (ex_heap0, ex_state0))"

text \<open>
  The example after the second derivation, continued with props that keep both routes but no
  longer hold a descriptor for \<open>b\<close>, delivered twice with the same entries in new containers.
\<close>

definition ex_props_drop :: Props where
  "ex_props_drop = \<lparr>mode = Card, insets = example_insets,
     descriptors = Obj 71 [''a'' \<mapsto> descriptor_a],
     routes = Obj 70 [route_a, route_b],
     openingRouteKeys = [], headerMode = Float, activeLimit = None\<rparr>"

definition ex_state_drop1 :: State where
  "ex_state_drop1 =
     \<lparr>s_routes = Obj 70 [route_a, route_b], s_descriptors = Obj 71 [''a'' \<mapsto> descriptor_a],
      scenes = [ex_scene_a2, ex_scene_b2], gestures = [''a'' \<mapsto> 100, ''b'' \<mapsto> 102],
      layout = example_layout, headerHeights = [''a'' \<mapsto> 100, ''b'' \<mapsto> 100]\<rparr>"

definition ex_props_drop2 :: Props where
  "ex_props_drop2 = \<lparr>mode = Card, insets = example_insets,
     descriptors = Obj 73 [''a'' \<mapsto> descriptor_a],
     routes = Obj 72 [route_a, route_b],
     openingRouteKeys = [], headerMode = Float, activeLimit = None\<rparr>"

definition ex_scene_a_drop :: "Scene obj" where
  "ex_scene_a_drop = Obj 107
     \<lparr>route = route_a, descriptor = descriptor_a,
      progress = \<lparr>current = Interpolation (Value 100)
                    \<lparr>inputRange = [0, 320], outputRange = [1, 0], extrapolate = Extend\<rparr>,
                  next = Some (Interpolation (Value 102)
                    \<lparr>inputRange = [0, 320], outputRange = [1, 0], extrapolate = Extend\<rparr>),
                  previous = None\<rparr>,
      memo = (route_a, example_layout, descriptor_a, None, None, 100, Some 102, None)\<rparr>"

definition ex_state_drop2 :: State where
  "ex_state_drop2 =
     \<lparr>s_routes = Obj 72 [route_a, route_b], s_descriptors = Obj 73 [''a'' \<mapsto> descriptor_a],
      scenes = [ex_scene_a_drop, ex_scene_b2], gestures = [''a'' \<mapsto> 100, ''b'' \<mapsto> 102],
      layout = example_layout, headerHeights = [''a'' \<mapsto> 100, ''b'' \<mapsto> 100]\<rparr>"












section \<open>Facts about the model\<close>

subsection \<open>Distance and progress\<close>

lemma direction_clamped_abs:
  "\<bar>getDistanceForDirection \<lparr>width = max 1 w, height = max 1 h\<rparr> dir\<bar> \<ge> 1"
  by (cases dir) (simp_all add: getDistanceForDirection_def)

lemma distance_clamped_abs:
  "\<bar>getDistanceFromOptions env m \<lparr>width = max 1 w, height = max 1 h\<rparr> d\<bar> \<ge> 1"
  unfolding getDistanceFromOptions_def Let_def by (rule direction_clamped_abs)

lemma distance_clamped_nonzero:
  "getDistanceFromOptions env m \<lparr>width = max 1 w, height = max 1 h\<rparr> d \<noteq> 0"
  using distance_clamped_abs[of env m w h d] by linarith

lemma progress_at_zero:
  "animated h g = 0 \<Longrightarrow> getValue h (getProgressFromGesture env m (Value g) lay d) = Some 1"
  using distance_clamped_nonzero[of env m "width lay" "height lay" d]
  by (simp add: getProgressFromGesture_def Let_def interpolate_def checkValidRanges_def
        interpolate_segment_def)

lemma progress_at_distance:
  "animated h g = getDistanceFromOptions env m \<lparr>width = max 1 (width lay), height = max 1 (height lay)\<rparr> d
    \<Longrightarrow> getValue h (getProgressFromGesture env m (Value g) lay d) = Some 0"
  using distance_clamped_nonzero[of env m "width lay" "height lay" d]
  by (simp add: getProgressFromGesture_def Let_def interpolate_def checkValidRanges_def
        interpolate_segment_def)

lemma activity_interpolation:
  "interpolate \<lparr>inputRange = [0, 1 - EPSILON, 1], outputRange = [1, 1, 0], extrapolate = Clamp\<rparr> p
     = Some (if p \<le> 1 - EPSILON then 1 else if 1 \<le> p then 0 else (1 - p) / EPSILON)"
  by (simp add: interpolate_def checkValidRanges_def interpolate_segment_def EPSILON_def
        field_simps)

subsection \<open>Array reads\<close>

lemma nth_opt_Some: "i < length xs \<Longrightarrow> nth_opt xs (int i) = Some (xs ! i)"
  by (simp add: nth_opt_def)

lemma nth_opt_in_set: "nth_opt xs j = Some x \<Longrightarrow> x \<in> set xs"
  by (auto simp: nth_opt_def split: if_splits)

lemma nth_opt_None_iff: "nth_opt xs (int i + int n) = None \<longleftrightarrow> length xs \<le> i + n"
  by (auto simp: nth_opt_def)

lemma nth_opt_sum_Some:
  "i + n < length xs \<Longrightarrow> nth_opt xs (int i + int n) = Some (xs ! (i + n))"
  by (simp add: nth_opt_def nat_add_distrib)

subsection \<open>The gestures reducer\<close>

lemma gestures_step_dom:
  "dom (snd (gestures_step env props state hacc r)) = insert (key (val r)) (dom (snd hacc))"
  by (auto simp: gestures_step_def Let_def new_Animated_Value_def split: option.splits)

lemma gestures_fold_dom:
  "dom (snd (foldl (gestures_step env props state) hacc rs))
     = dom (snd hacc) \<union> (\<lambda>r. key (val r)) ` set rs"
  by (induction rs arbitrary: hacc) (auto simp: gestures_step_dom)

lemma gestures_reduce_dom:
  "dom (snd (gestures_reduce env props state h)) = (\<lambda>r. key (val r)) ` set (val (routes props))"
  by (simp add: gestures_reduce_def gestures_fold_dom)

lemma gestures_step_other:
  "key (val r) \<noteq> k \<Longrightarrow> snd (gestures_step env props state hacc r) k = snd hacc k"
  by (auto simp: gestures_step_def Let_def new_Animated_Value_def split: option.splits)

lemma gestures_step_kept:
  "gestures state k = Some g \<Longrightarrow> key (val r) = k
     \<Longrightarrow> snd (gestures_step env props state hacc r) k = Some g"
  by (auto simp: gestures_step_def Let_def new_Animated_Value_def split: option.splits)

lemma gestures_fold_kept:
  "gestures state k = Some g \<Longrightarrow> k \<in> (\<lambda>r. key (val r)) ` set rs \<or> snd hacc k = Some g
     \<Longrightarrow> snd (foldl (gestures_step env props state) hacc rs) k = Some g"
proof (induction rs arbitrary: hacc)
  case Nil
  then show ?case by simp
next
  case (Cons r rs)
  show ?case
  proof (cases "key (val r) = k")
    case True
    then have "snd (gestures_step env props state hacc r) k = Some g"
      using Cons.prems(1) by (simp add: gestures_step_kept)
    then show ?thesis using Cons.IH[OF Cons.prems(1)] by simp
  next
    case False
    then have "snd (gestures_step env props state hacc r) k = snd hacc k"
      by (simp add: gestures_step_other)
    then show ?thesis using Cons.IH[OF Cons.prems(1)] Cons.prems(2) False by auto
  qed
qed



lemma gestures_step_new:
  "gestures state (key (val r)) = None \<Longrightarrow> f0 \<le> fresh (fst hacc)
     \<Longrightarrow> tracked f0 (key (val r)) (initial_gesture_value env props state (key (val r)))
           (gestures_step env props state hacc r)"
  by (auto simp: tracked_def gestures_step_def Let_def new_Animated_Value_def
        initial_gesture_value_def split: option.splits)



subsection \<open>The derivation never throws\<close>

lemma sequence_map_Inr: "sequence (map Inr ys) = Inr ys"
  by (induction ys) auto

lemma sequence_Inr_D: "sequence xs = Inr ys \<Longrightarrow> xs = map Inr ys"
  by (induction xs arbitrary: ys) (auto split: sum.splits)

lemma sequence_total:
  "(\<And>x. x \<in> set xs \<Longrightarrow> \<exists>y. x = Inr y) \<Longrightarrow> \<exists>ys. sequence xs = Inr ys"
proof (induction xs)
  case Nil
  then show ?case by simp
next
  case (Cons x xs)
  then obtain y where "x = Inr y" by auto
  moreover obtain ys where "sequence xs = Inr ys" using Cons by auto
  ultimately show ?case by simp
qed

lemma scene_at_Inr:
  "gs (key (val r)) = Some g \<Longrightarrow> \<exists>sc. scene_at env props state gs a (i, r) = Inr sc"
  by (simp add: scene_at_def Let_def split: option.splits)

lemma scenes_sequence_total:
  "\<exists>scs. sequence (map (scene_at env props state (snd (gestures_reduce env props state h)) a)
                     (enumerate 0 (val (routes props)))) = Inr scs"
proof (rule sequence_total)
  fix x
  assume "x \<in> set (map (scene_at env props state (snd (gestures_reduce env props state h)) a)
                     (enumerate 0 (val (routes props))))"
  then obtain i r where ir: "(i, r) \<in> set (enumerate 0 (val (routes props)))"
    and x: "x = scene_at env props state (snd (gestures_reduce env props state h)) a (i, r)"
    by auto
  from ir have "r \<in> set (val (routes props))" by (auto simp: in_set_enumerate_eq)
  then have "key (val r) \<in> dom (snd (gestures_reduce env props state h))"
    by (simp add: gestures_reduce_dom)
  then obtain g where "snd (gestures_reduce env props state h) (key (val r)) = Some g" by auto
  then show "\<exists>y. x = Inr y" unfolding x by (rule scene_at_Inr)
qed

lemma getDerivedStateFromProps_null:
  "routes props = s_routes state \<and> descriptors props = s_descriptors state
     \<Longrightarrow> getDerivedStateFromProps env h props state = Inr (h, None)"
  by (simp add: getDerivedStateFromProps_def)

lemma getDerivedStateFromProps_total:
  "\<exists>h' r. getDerivedStateFromProps env h props state = Inr (h', r)"
proof (cases "routes props = s_routes state \<and> descriptors props = s_descriptors state")
  case True
  then show ?thesis by (simp add: getDerivedStateFromProps_def)
next
  case False
  obtain scs where "sequence (map (scene_at env props state (snd (gestures_reduce env props state h))
                       (fresh (fst (gestures_reduce env props state h))))
                     (enumerate 0 (val (routes props)))) = Inr scs"
    using scenes_sequence_total by blast
  with False show ?thesis
    by (simp add: getDerivedStateFromProps_def Let_def split_beta)
qed

lemma getDerivedStateFromProps_SomeD:
  assumes "getDerivedStateFromProps env h props state = Inr (h', Some state')"
  shows "s_routes state' = routes props"
    and "s_descriptors state' = descriptors props"
    and "gestures state' = snd (gestures_reduce env props state h)"
    and "layout state' = layout state"
    and "headerHeights state' =
           getHeaderHeights env (val (routes props)) (insets props) (val (s_descriptors state))
             (val (layout state)) (headerHeights state)"
    and "animated h' = animated (fst (gestures_reduce env props state h))"
    and "map (scene_at env props state (snd (gestures_reduce env props state h))
               (fresh (fst (gestures_reduce env props state h))))
             (enumerate 0 (val (routes props))) = map Inr (scenes state')"
    and "\<not> (routes props = s_routes state \<and> descriptors props = s_descriptors state)"
  using assms
  by (auto simp: getDerivedStateFromProps_def Let_def split_beta
           split: if_splits sum.splits dest: sequence_Inr_D)

lemma derived_scenes_length:
  assumes "getDerivedStateFromProps env h props state = Inr (h', Some state')"
  shows "length (scenes state') = length (val (routes props))"
  using arg_cong[OF getDerivedStateFromProps_SomeD(7)[OF assms], of length] by simp

lemma derived_scene_nth:
  assumes "getDerivedStateFromProps env h props state = Inr (h', Some state')"
    and "i < length (val (routes props))"
  shows "scene_at env props state (gestures state') (fresh (fst (gestures_reduce env props state h)))
           (i, val (routes props) ! i) = Inr (scenes state' ! i)"
proof -
  let ?f = "scene_at env props state (snd (gestures_reduce env props state h))
               (fresh (fst (gestures_reduce env props state h)))"
  have eq: "map ?f (enumerate 0 (val (routes props))) = map Inr (scenes state')"
    by (rule getDerivedStateFromProps_SomeD(7)[OF assms(1)])
  have len: "i < length (scenes state')" using derived_scenes_length[OF assms(1)] assms(2) by simp
  have "map ?f (enumerate 0 (val (routes props))) ! i = ?f (i, val (routes props) ! i)"
    using assms(2) by (simp add: nth_enumerate_eq)
  moreover have "map Inr (scenes state') ! i = (Inr (scenes state' ! i) :: error + Scene obj)"
    using len by simp
  ultimately show ?thesis
    using eq getDerivedStateFromProps_SomeD(3)[OF assms(1)] by simp
qed

lemma derived_gestures_dom:
  assumes "getDerivedStateFromProps env h props state = Inr (h', Some state')"
  shows "dom (gestures state') = (\<lambda>r. key (val r)) ` set (val (routes props))"
  by (simp add: getDerivedStateFromProps_SomeD(3)[OF assms] gestures_reduce_dom)

lemma derived_gesture_kept:
  assumes "getDerivedStateFromProps env h props state = Inr (h', Some state')"
    and "gestures state k = Some g"
    and "k \<in> (\<lambda>r. key (val r)) ` set (val (routes props))"
  shows "gestures state' k = Some g"
  unfolding getDerivedStateFromProps_SomeD(3)[OF assms(1)] gestures_reduce_def
  using assms(2,3) by (simp add: gestures_fold_kept)


subsection \<open>Scenes and their memo\<close>

lemma scene_at_memo_hit:
  "gs (key (val r)) = Some g \<Longrightarrow> nth_opt (scenes state) (int i) = Some old
     \<Longrightarrow> memo (val old) = scene_memo props state gs i r g
     \<Longrightarrow> scene_at env props state gs a (i, r) = Inr old"
  by (simp add: scene_at_def Let_def)

lemma scene_at_memo:
  "scene_at env props state gs a (i, r) = Inr sc \<Longrightarrow> gs (key (val r)) = Some g
     \<Longrightarrow> memo (val sc) = scene_memo props state gs i r g"
  by (auto simp: scene_at_def Let_def split: option.splits if_splits)

lemma scene_at_descriptor:
  "scene_at env props state gs a (i, r) = Inr sc
     \<Longrightarrow> val (descriptors props) (key (val r)) = None
     \<Longrightarrow> val (s_descriptors state) (key (val r)) = None
     \<Longrightarrow> descriptor (val sc) = resolve_descriptor props state i r"
  by (auto simp: scene_at_def Let_def resolve_descriptor_def split: option.splits if_splits)

lemma adjacent_gesture_cong:
  "(\<And>x. r = Some x \<Longrightarrow> gs (key (val x)) = gs' (key (val x)))
     \<Longrightarrow> adjacent_gesture gs r = adjacent_gesture gs' r"
  by (cases r) (simp_all add: adjacent_gesture_def)

lemma descriptors_at_nth:
  assumes "map (descriptors_at props2 state1) [0..<length (val (routes props2))]
             = map (descriptors_at props1 state0) [0..<length (val (routes props1))]"
    and "val (routes props2) = val (routes props1)"
    and "i < length (val (routes props1))"
  shows "resolve_descriptor props2 state1 i (val (routes props1) ! i)
           = resolve_descriptor props1 state0 i (val (routes props1) ! i)"
    and "adjacent_descriptor props2 state1 (nextRoute props2 i)
           = adjacent_descriptor props1 state0 (nextRoute props1 i)"
    and "adjacent_descriptor props2 state1 (previousRoute props2 i)
           = adjacent_descriptor props1 state0 (previousRoute props1 i)"
proof -
  have "descriptors_at props2 state1 i = descriptors_at props1 state0 i"
    using assms by simp
  then show "resolve_descriptor props2 state1 i (val (routes props1) ! i)
           = resolve_descriptor props1 state0 i (val (routes props1) ! i)"
    and "adjacent_descriptor props2 state1 (nextRoute props2 i)
           = adjacent_descriptor props1 state0 (nextRoute props1 i)"
    and "adjacent_descriptor props2 state1 (previousRoute props2 i)
           = adjacent_descriptor props1 state0 (previousRoute props1 i)"
    using assms(2,3) by (simp_all add: descriptors_at_def nth_opt_Some)
qed

lemma successive_scenes:
  assumes d1: "getDerivedStateFromProps env h0 props1 state0 = Inr (h1, Some state1)"
    and d2: "getDerivedStateFromProps env h1 props2 state1 = Inr (h2, Some state2)"
    and rs: "val (routes props2) = val (routes props1)"
    and ds: "map (descriptors_at props2 state1) [0..<length (val (routes props2))]
               = map (descriptors_at props1 state0) [0..<length (val (routes props1))]"
  shows "scenes state2 = scenes state1"
proof (rule nth_equalityI)
  show len: "length (scenes state2) = length (scenes state1)"
    using derived_scenes_length[OF d1] derived_scenes_length[OF d2] rs by simp
  fix i
  assume "i < length (scenes state2)"
  then have i1: "i < length (val (routes props1))" and i2: "i < length (val (routes props2))"
    using derived_scenes_length[OF d2] rs by simp_all
  let ?r = "val (routes props1) ! i"
  have rin: "?r \<in> set (val (routes props1))" using i1 by simp
  then have "key (val ?r) \<in> dom (gestures state1)"
    using derived_gestures_dom[OF d1] by blast
  then obtain g where g1: "gestures state1 (key (val ?r)) = Some g" by auto
  have keep: "gestures state2 k = gestures state1 k"
    if "k \<in> (\<lambda>r. key (val r)) ` set (val (routes props1))" for k
  proof -
    from that have "k \<in> dom (gestures state1)" using derived_gestures_dom[OF d1] by simp
    then obtain g' where "gestures state1 k = Some g'" by auto
    then show ?thesis using derived_gesture_kept[OF d2, of k g'] that rs by simp
  qed
  have g2: "gestures state2 (key (val ?r)) = Some g" using keep rin g1 by auto
  have s1: "scene_at env props1 state0 (gestures state1)
              (fresh (fst (gestures_reduce env props1 state0 h0))) (i, ?r) = Inr (scenes state1 ! i)"
    by (rule derived_scene_nth[OF d1 i1])
  have s2: "scene_at env props2 state1 (gestures state2)
              (fresh (fst (gestures_reduce env props2 state1 h1))) (i, ?r) = Inr (scenes state2 ! i)"
    using derived_scene_nth[OF d2 i2] rs by simp
  have m1: "memo (val (scenes state1 ! i)) = scene_memo props1 state0 (gestures state1) i ?r g"
    by (rule scene_at_memo[OF s1 g1])
  have old: "nth_opt (scenes state1) (int i) = Some (scenes state1 ! i)"
    using i1 derived_scenes_length[OF d1] by (simp add: nth_opt_Some)
  have lay: "layout state1 = layout state0"
    by (rule getDerivedStateFromProps_SomeD(4)[OF d1])
  have nr: "nextRoute props2 i = nextRoute props1 i" "previousRoute props2 i = previousRoute props1 i"
    by (simp_all add: nextRoute_def previousRoute_def rs)
  note same = descriptors_at_nth[OF ds rs i1]
  have adjg: "adjacent_gesture (gestures state2) x = adjacent_gesture (gestures state1) x"
    if "\<And>y. x = Some y \<Longrightarrow> y \<in> set (val (routes props1))" for x
    by (rule adjacent_gesture_cong) (use that keep in auto)
  have gn: "adjacent_gesture (gestures state2) (nextRoute props1 i)
              = adjacent_gesture (gestures state1) (nextRoute props1 i)"
    by (rule adjg) (auto simp: nextRoute_def dest: nth_opt_in_set)
  have gp: "adjacent_gesture (gestures state2) (previousRoute props1 i)
              = adjacent_gesture (gestures state1) (previousRoute props1 i)"
    by (rule adjg) (auto simp: previousRoute_def dest: nth_opt_in_set)
  have "scene_memo props2 state1 (gestures state2) i ?r g
          = scene_memo props1 state0 (gestures state1) i ?r g"
    using same by (simp add: scene_memo_def lay nr gn gp)
  with m1 have "memo (val (scenes state1 ! i)) = scene_memo props2 state1 (gestures state2) i ?r g"
    by simp
  from scene_at_memo_hit[OF g2 old this] s2
  show "scenes state2 ! i = scenes state1 ! i" by simp
qed

lemma same_entries_same_descriptors:
  assumes d1: "getDerivedStateFromProps env h0 props1 state0 = Inr (h1, Some state1)"
    and rs: "val (routes props2) = val (routes props1)"
    and ds: "val (descriptors props2) = val (descriptors props1)"
    and stale: "dom (val (s_descriptors state0)) \<subseteq> dom (val (descriptors props1))"
  shows "map (descriptors_at props2 state1) [0..<length (val (routes props2))]
           = map (descriptors_at props1 state0) [0..<length (val (routes props1))]"
proof -
  have "descriptors_at props2 state1 i = descriptors_at props1 state0 i"
    if i1: "i < length (val (routes props1))" for i
  proof -
    let ?r = "val (routes props1) ! i"
    have s1: "scene_at env props1 state0 (gestures state1)
                (fresh (fst (gestures_reduce env props1 state0 h0))) (i, ?r)
                = Inr (scenes state1 ! i)"
      by (rule derived_scene_nth[OF d1 i1])
    have old: "nth_opt (scenes state1) (int i) = Some (scenes state1 ! i)"
      using i1 derived_scenes_length[OF d1] by (simp add: nth_opt_Some)
    have sd1: "val (s_descriptors state1) = val (descriptors props1)"
      by (simp add: getDerivedStateFromProps_SomeD(2)[OF d1])
    have none0: "val (s_descriptors state0) k = None" if "val (descriptors props1) k = None" for k
      using stale that by (auto simp: dom_def)
    have nr: "nextRoute props2 i = nextRoute props1 i"
      "previousRoute props2 i = previousRoute props1 i"
      by (simp_all add: nextRoute_def previousRoute_def rs)
    have adj: "adjacent_descriptor props2 state1 x = adjacent_descriptor props1 state0 x" for x
      using none0[of "optional_key x"]
      by (simp add: adjacent_descriptor_def ds sd1 split: option.splits)
    have res: "resolve_descriptor props2 state1 i ?r = resolve_descriptor props1 state0 i ?r"
    proof (cases "val (descriptors props1) (key (val ?r))")
      case None
      then have n0: "val (s_descriptors state0) (key (val ?r)) = None" by (rule none0)
      have "resolve_descriptor props2 state1 i ?r = descriptor (val (scenes state1 ! i))"
        using None by (simp add: resolve_descriptor_def ds sd1 old)
      also have "\<dots> = resolve_descriptor props1 state0 i ?r"
        by (rule scene_at_descriptor[OF s1 None n0])
      finally show ?thesis .
    next
      case (Some d)
      then show ?thesis by (simp add: resolve_descriptor_def ds)
    qed
    show ?thesis using i1 by (simp add: descriptors_at_def rs nth_opt_Some nr adj res)
  qed
  then show ?thesis using rs by simp
qed

subsection \<open>Header heights\<close>

lemma headerHeightOf_formula:
  "headerHeightOf env ins ds lay prev r =
     (case explicit_height ds (key (val r)) of
        Some n \<Rightarrow> n
      | None \<Rightarrow>
          (case prev (key (val r)) of
             Some H \<Rightarrow> H
           | None \<Rightarrow> getDefaultHeaderHeight env lay (status_bar_height ins ds (key (val r)))))"
  by (simp add: headerHeightOf_def explicit_height_def status_bar_height_def spread_insets_def
        no_options_def Let_def split: option.splits StyleValue.splits)

lemma headerHeightOf_key:
  "key (val r) = key (val r')
     \<Longrightarrow> headerHeightOf env ins ds lay prev r = headerHeightOf env ins ds lay prev r'"
  by (metis headerHeightOf_formula)

lemma header_fold_dom:
  "dom (foldl (\<lambda>acc curr. acc(key (val curr) \<mapsto> f curr)) m rs)
     = dom m \<union> (\<lambda>r. key (val r)) ` set rs"
  by (induction rs arbitrary: m) auto

lemma header_fold_lookup:
  assumes "\<And>r r'. key (val r) = key (val r') \<Longrightarrow> f r = f r'"
  shows "r \<in> set rs \<or> m (key (val r)) = Some (f r)
     \<Longrightarrow> foldl (\<lambda>acc curr. acc(key (val curr) \<mapsto> f curr)) m rs (key (val r)) = Some (f r)"
proof (induction rs arbitrary: m)
  case Nil
  then show ?case by simp
next
  case (Cons x xs)
  show ?case
  proof (cases "key (val x) = key (val r)")
    case True
    then have "(m(key (val x) \<mapsto> f x)) (key (val r)) = Some (f r)"
      using assms[of x r] by simp
    then show ?thesis using Cons.IH[of "m(key (val x) \<mapsto> f x)"] by simp
  next
    case False
    then have "r \<in> set xs \<or> (m(key (val x) \<mapsto> f x)) (key (val r)) = Some (f r)"
      using Cons.prems by auto
    then show ?thesis using Cons.IH[of "m(key (val x) \<mapsto> f x)"] by simp
  qed
qed

lemma getHeaderHeights_dom:
  "dom (getHeaderHeights env rs ins ds lay prev) = (\<lambda>r. key (val r)) ` set rs"
  by (simp add: getHeaderHeights_def header_fold_dom)

lemma getHeaderHeights_lookup:
  "r \<in> set rs
     \<Longrightarrow> getHeaderHeights env rs ins ds lay prev (key (val r))
           = Some (headerHeightOf env ins ds lay prev r)"
  unfolding getHeaderHeights_def
  by (rule header_fold_lookup) (auto intro: headerHeightOf_key)

subsection \<open>Events\<close>

lemma derive_total: "\<exists>c'. derive env h p s = Inr c'"
proof -
  obtain h' u where "getDerivedStateFromProps env h p s = Inr (h', u)"
    using getDerivedStateFromProps_total by blast
  then show ?thesis by (simp add: derive_def)
qed

lemma derive_gesture_kept:
  assumes "derive env h p s = Inr c'"
    and "gestures s k = Some g"
    and "k \<in> route_keys p"
  shows "gestures (c_state c') k = Some g \<and> c_props c' = p"
proof -
  obtain h' u where d: "getDerivedStateFromProps env h p s = Inr (h', u)"
    using getDerivedStateFromProps_total by blast
  then have c': "c' = \<lparr>c_heap = h', c_props = p, c_state = apply_update s u\<rparr>"
    using assms(1) by (simp add: derive_def)
  show ?thesis
  proof (cases u)
    case None
    then show ?thesis using c' assms(2) by (simp add: apply_update_def)
  next
    case (Some s')
    then have "gestures s' k = Some g"
      using derived_gesture_kept[of env h p s h' s' k g] d assms(2,3)
      by (simp add: route_keys_def)
    then show ?thesis using c' Some by (simp add: apply_update_def)
  qed
qed

lemma dispatch_total: "\<exists>c'. dispatch env c e = Inr c'"
proof (cases e)
  case (ReceiveProps p)
  then show ?thesis using derive_total by simp
next
  case (LayoutEvent w h)
  obtain h' u where hl: "handleLayout env (c_heap c) (c_props c) w h (c_state c) = (h', u)"
    by (cases "handleLayout env (c_heap c) (c_props c) w h (c_state c)")
  show ?thesis
  proof (cases u)
    case None
    then show ?thesis using LayoutEvent hl by simp
  next
    case (Some s)
    then show ?thesis using LayoutEvent hl derive_total[of env h' "c_props c" s] by simp
  qed
next
  case (HeaderLayoutEvent r h)
  then show ?thesis
    using derive_total[of env "c_heap c" "c_props c"]
    by (cases "handleHeaderLayout r h (c_state c)") auto
qed

lemma handleLayout_gestures:
  "handleLayout env h p w ht s = (h', Some s') \<Longrightarrow> gestures s' = gestures s"
  by (auto simp: handleLayout_def Let_def split: if_splits)

lemma handleHeaderLayout_gestures:
  "handleHeaderLayout r ht s = Some s' \<Longrightarrow> gestures s' = gestures s"
  by (auto simp: handleHeaderLayout_def Let_def split: if_splits)

lemma dispatch_gesture_kept:
  assumes "dispatch env c e = Inr c'"
    and "gestures (c_state c) k = Some g"
    and "k \<in> route_keys (c_props c)"
    and "\<And>p. received e = Some p \<Longrightarrow> k \<in> route_keys p"
  shows "gestures (c_state c') k = Some g \<and> k \<in> route_keys (c_props c')"
proof (cases e)
  case (ReceiveProps p)
  then have "derive env (c_heap c) p (c_state c) = Inr c'" using assms(1) by simp
  moreover have "k \<in> route_keys p" using assms(4) ReceiveProps by simp
  ultimately show ?thesis using derive_gesture_kept assms(2) by blast
next
  case (LayoutEvent w h)
  obtain h' u where hl: "handleLayout env (c_heap c) (c_props c) w h (c_state c) = (h', u)"
    by (cases "handleLayout env (c_heap c) (c_props c) w h (c_state c)")
  show ?thesis
  proof (cases u)
    case None
    then show ?thesis using LayoutEvent hl assms(1,2,3) by auto
  next
    case (Some s)
    then have "derive env h' (c_props c) s = Inr c'" using LayoutEvent hl assms(1) by simp
    moreover have "gestures s k = Some g"
      using handleLayout_gestures hl Some assms(2) by metis
    ultimately show ?thesis using derive_gesture_kept assms(3) by metis
  qed
next
  case (HeaderLayoutEvent r h)
  show ?thesis
  proof (cases "handleHeaderLayout r h (c_state c)")
    case None
    then show ?thesis using HeaderLayoutEvent assms(1,2,3) by auto
  next
    case (Some s)
    then have "derive env (c_heap c) (c_props c) s = Inr c'"
      using HeaderLayoutEvent assms(1) by simp
    moreover have "gestures s k = Some g"
      using handleHeaderLayout_gestures Some assms(2) by metis
    ultimately show ?thesis using derive_gesture_kept assms(3) by metis
  qed
qed

section \<open>The running example, evaluated\<close>

lemmas example_defs = example_imports_def example_header_height_def route_a_def route_b_def
  descriptor_a_def descriptor_b_def example_insets_def example_layout_def ex_props1_def ex_heap0_def
  ex_state0_def ex_scene_a1_def ex_heap1_def ex_state1_def ex_props2_def ex_scene_a2_def ex_scene_b2_def ex_heap2_def
  ex_state2_def ex_props3_def ex_heap3_def ex_state3_def

lemmas model_defs = getDerivedStateFromProps_def gestures_reduce_def gestures_step_def
  new_Animated_Value_def scene_at_def scene_memo_def resolve_descriptor_def
  adjacent_descriptor_def adjacent_gesture_def nextRoute_def previousRoute_def nth_opt_def
  optional_key_def getProgressFromGesture_def getDistanceFromOptions_def
  getDistanceForDirection_def getHeaderHeights_def headerHeightOf_def spread_insets_def
  no_options_def FALLBACK_DESCRIPTOR_def

lemma example_constructed:
  "constructor \<lparr>fresh = 40, animated = animated ex_heap0\<rparr> ex_props1 320 640
     = (\<lparr>fresh = 42, animated = animated ex_heap0\<rparr>, ex_state0)"
  by (simp add: constructor_def ex_state0_def ex_props1_def example_layout_def)

lemma first_derivation:
  "getDerivedStateFromProps example_imports ex_heap0 ex_props1 ex_state0 = Inr (ex_heap1, Some ex_state1)"
  by (simp add: example_defs model_defs Let_def enumerate_eq_zip)


lemma third_derivation:
  "getDerivedStateFromProps example_imports ex_heap2 ex_props3 ex_state2 = Inr (ex_heap3, Some ex_state3)"
  by (simp add: example_defs model_defs Let_def enumerate_eq_zip)

lemma fourth_derivation:
  "getDerivedStateFromProps example_imports ex_heap3 ex_props2 ex_state3 = Inr (ex_heap4, Some ex_state2)"
  by (simp add: example_defs ex_heap4_def model_defs Let_def enumerate_eq_zip)




lemmas stack4_defs = route_c_def route_d_def descriptor_c_def descriptor_d_def ex_props4_def

lemma ex_stack4_heap: "animated (fst ex_stack4) g = 0"
  by (simp add: ex_stack4_def example_defs stack4_defs model_defs Let_def enumerate_eq_zip)

lemma ex_stack4_progress:
  "map (\<lambda>sc. current (progress (val sc))) (scenes (snd ex_stack4))
     = [Interpolation (Value 100)
          \<lparr>inputRange = [0, 320], outputRange = [1, 0], extrapolate = Extend\<rparr>,
        Interpolation (Value 101)
          \<lparr>inputRange = [0, 640], outputRange = [1, 0], extrapolate = Extend\<rparr>,
        Interpolation (Value 102)
          \<lparr>inputRange = [0, 320], outputRange = [1, 0], extrapolate = Extend\<rparr>,
        Interpolation (Value 103)
          \<lparr>inputRange = [0, 320], outputRange = [1, 0], extrapolate = Extend\<rparr>]"
  by (simp add: ex_stack4_def example_defs stack4_defs model_defs Let_def enumerate_eq_zip)

lemma ex_stack4_descriptors:
  "map (\<lambda>sc. descriptor (val sc)) (scenes (snd ex_stack4))
     = [descriptor_a, descriptor_b, descriptor_c, descriptor_d]"
  by (simp add: ex_stack4_def example_defs stack4_defs model_defs Let_def enumerate_eq_zip)

lemma ex_stack4_length: "length (scenes (snd ex_stack4)) = 4"
  using arg_cong[OF ex_stack4_progress, of length] by simp

lemma ex_stack4_idle:
  "\<forall>s \<in> set (scenes (snd ex_stack4)).
      getValue (fst ex_stack4) (current (progress (val s))) = Some 1"
proof
  fix s assume "s \<in> set (scenes (snd ex_stack4))"
  then have "current (progress (val s))
      \<in> set (map (\<lambda>sc. current (progress (val sc))) (scenes (snd ex_stack4)))"
    by simp
  then show "getValue (fst ex_stack4) (current (progress (val s))) = Some 1"
    unfolding ex_stack4_progress
    by (auto simp: ex_stack4_heap interpolate_def checkValidRanges_def interpolate_segment_def)
qed

lemma ex_stack4_nth:
  "nth_opt (scenes (snd ex_stack4)) (int i)
     = (if i < 4 then Some (scenes (snd ex_stack4) ! i) else None)"
  by (simp add: nth_opt_def ex_stack4_length)

lemma ex_stack4_descriptor_nth:
  "i < 4 \<Longrightarrow> descriptor (val (scenes (snd ex_stack4) ! i))
     = [descriptor_a, descriptor_b, descriptor_c, descriptor_d] ! i"
  using arg_cong[OF ex_stack4_descriptors, of "\<lambda>xs. xs ! i"]
  by (simp add: ex_stack4_length)

lemmas drop_defs = ex_props_drop_def ex_state_drop1_def ex_props_drop2_def ex_scene_a_drop_def
  ex_state_drop2_def

lemma drop_derivation:
  "getDerivedStateFromProps example_imports ex_heap2 ex_props_drop ex_state2
     = Inr (ex_heap3, Some ex_state_drop1)"
  by (simp add: example_defs drop_defs model_defs Let_def enumerate_eq_zip)

lemma drop_derivation2:
  "getDerivedStateFromProps example_imports ex_heap3 ex_props_drop2 ex_state_drop1
     = Inr (ex_heap4, Some ex_state_drop2)"
  by (simp add: example_defs ex_heap4_def drop_defs model_defs Let_def enumerate_eq_zip)




section \<open>The claims\<close>

subsection \<open>C1: progress at the ends of a transition\<close>

text \<open>
  Claim C1, as the code has it. For every mode, descriptor (hence gesture direction) and
  layout, the progress computed from a tracker is 1 when the tracker is at 0 (the screen is
  focused) and 0 when the tracker is at the full distance of the layout clamped to at
  least 1 (the screen is off-screen).
\<close>

theorem progress_mapper_endpoints:
  "(animated h g = 0
      \<longrightarrow> getValue h (getProgressFromGesture env m (Value g) lay d) = Some 1)
   \<and> (animated h g
        = getDistanceFromOptions env m
            \<lparr>width = max 1 (width lay), height = max 1 (height lay)\<rparr> d
      \<longrightarrow> getValue h (getProgressFromGesture env m (Value g) lay d) = Some 0)"
  using progress_at_zero[of h g env m lay d] progress_at_distance[of h g env m lay d]
  by blast

theorem progress_mapper_endpoints_witness:
  "animated ex_heap2 100 = 0
   \<and> getValue ex_heap2
         (getProgressFromGesture example_imports Card (Value 100) (val example_layout)
            (Some descriptor_a)) = Some 1
   \<and> animated ex_heap2 102
        = getDistanceFromOptions example_imports Card
            \<lparr>width = max 1 (width (val example_layout)),
             height = max 1 (height (val example_layout))\<rparr> (Some descriptor_b)
   \<and> getValue ex_heap2
         (getProgressFromGesture example_imports Card (Value 102) (val example_layout)
            (Some descriptor_b)) = Some 0"
proof -
  have a: "animated ex_heap2 100 = 0" by (simp add: ex_heap2_def)
  have b: "animated ex_heap2 102
        = getDistanceFromOptions example_imports Card
            \<lparr>width = max 1 (width (val example_layout)),
             height = max 1 (height (val example_layout))\<rparr> (Some descriptor_b)"
    by (simp add: example_defs getDistanceFromOptions_def getDistanceForDirection_def
          no_options_def)
  show ?thesis
    using a b
      progress_mapper_endpoints[of ex_heap2 100 example_imports Card "val example_layout"
        "Some descriptor_a"]
      progress_mapper_endpoints[of ex_heap2 102 example_imports Card "val example_layout"
        "Some descriptor_b"]
    by blast
qed

text \<open>
  The orientation the other way round (progress 0 at tracker 0, progress 1 at the full
  distance) fails in the running example, for the idle route \<open>a\<close> and for the route \<open>b\<close>
  that starts at its full distance of 640.
\<close>

theorem progress_mapper_counterexample:
  "animated ex_heap2 100 = 0
   \<and> getValue ex_heap2
         (getProgressFromGesture example_imports Card (Value 100) (val example_layout)
            (Some descriptor_a)) \<noteq> Some 0
   \<and> animated ex_heap2 102
        = getDistanceFromOptions example_imports Card (val example_layout) (Some descriptor_b)
   \<and> getValue ex_heap2
         (getProgressFromGesture example_imports Card (Value 102) (val example_layout)
            (Some descriptor_b)) \<noteq> Some 1"
  by (simp add: example_defs getProgressFromGesture_def getDistanceFromOptions_def
        getDistanceForDirection_def no_options_def interpolate_def checkValidRanges_def
        interpolate_segment_def Let_def)

subsection \<open>C2: scene memoization\<close>

text \<open>
  Claim C2, as the code has it. In a derivation, when the scene stored at an index has a memo
  equal to the eight dependencies computed now (route, layout, own, next and previous
  descriptor, own, next and previous gesture, each compared by reference), that stored scene
  object is what the derivation returns at this index. For the derivation that follows it:
  with the same \<^verbatim>\<open>routes\<close> and \<^verbatim>\<open>descriptors\<close> objects it returns \<^verbatim>\<open>null\<close>, so the scenes
  stay as they are; with the same routes in the list and the same three descriptors resolved
  at every index, every scene is the object it was (the layout and the trackers are then the
  same by themselves); and the descriptors resolved are the same when the new map holds the
  same descriptors and every key that had a descriptor in the state before the first
  derivation has one in the props of the first derivation.
\<close>

theorem scene_memoization:
  assumes d: "getDerivedStateFromProps env h props state = Inr (h', Some state')"
  shows "(index < length (val (routes props))
            \<and> nth_opt (scenes state) (int index) = Some old
            \<and> gestures state' (key (val (val (routes props) ! index))) = Some g
            \<and> memo (val old)
                = scene_memo props state (gestures state') index (val (routes props) ! index) g
          \<longrightarrow> scenes state' ! index = old)
       \<and> (routes props' = routes props \<and> descriptors props' = descriptors props
          \<longrightarrow> getDerivedStateFromProps env h' props' state' = Inr (h', None))
       \<and> (getDerivedStateFromProps env h' props' state' = Inr (h'', u)
            \<and> val (routes props') = val (routes props)
            \<and> map (descriptors_at props' state') [0..<length (val (routes props'))]
                = map (descriptors_at props state) [0..<length (val (routes props))]
          \<longrightarrow> scenes (apply_update state' u) = scenes state')
       \<and> (getDerivedStateFromProps env h' props' state' = Inr (h'', u)
            \<and> val (routes props') = val (routes props)
            \<and> val (descriptors props') = val (descriptors props)
            \<and> dom (val (s_descriptors state)) \<subseteq> dom (val (descriptors props))
          \<longrightarrow> scenes (apply_update state' u) = scenes state')"
proof (intro conjI impI)
  assume a: "index < length (val (routes props))
            \<and> nth_opt (scenes state) (int index) = Some old
            \<and> gestures state' (key (val (val (routes props) ! index))) = Some g
            \<and> memo (val old)
                = scene_memo props state (gestures state') index (val (routes props) ! index) g"
  let ?a = "fresh (fst (gestures_reduce env props state h))"
  have "scene_at env props state (gestures state') ?a (index, val (routes props) ! index)
          = Inr (scenes state' ! index)"
    using derived_scene_nth[OF d] a by blast
  moreover have "scene_at env props state (gestures state') ?a (index, val (routes props) ! index)
          = Inr old"
    using a by (intro scene_at_memo_hit) auto
  ultimately show "scenes state' ! index = old" by simp
next
  assume "routes props' = routes props \<and> descriptors props' = descriptors props"
  then show "getDerivedStateFromProps env h' props' state' = Inr (h', None)"
    using getDerivedStateFromProps_SomeD(1,2)[OF d]
    by (intro getDerivedStateFromProps_null) simp
next
  assume a: "getDerivedStateFromProps env h' props' state' = Inr (h'', u)
            \<and> val (routes props') = val (routes props)
            \<and> map (descriptors_at props' state') [0..<length (val (routes props'))]
                = map (descriptors_at props state) [0..<length (val (routes props))]"
  show "scenes (apply_update state' u) = scenes state'"
  proof (cases u)
    case None
    then show ?thesis by (simp add: apply_update_def)
  next
    case (Some s2)
    with a have d2: "getDerivedStateFromProps env h' props' state' = Inr (h'', Some s2)"
      by simp
    have "scenes s2 = scenes state'"
      using successive_scenes[OF d d2] a by blast
    then show ?thesis using Some by (simp add: apply_update_def)
  qed
next
  assume a: "getDerivedStateFromProps env h' props' state' = Inr (h'', u)
            \<and> val (routes props') = val (routes props)
            \<and> val (descriptors props') = val (descriptors props)
            \<and> dom (val (s_descriptors state)) \<subseteq> dom (val (descriptors props))"
  show "scenes (apply_update state' u) = scenes state'"
  proof (cases u)
    case None
    then show ?thesis by (simp add: apply_update_def)
  next
    case (Some s2)
    with a have d2: "getDerivedStateFromProps env h' props' state' = Inr (h'', Some s2)"
      by simp
    have "map (descriptors_at props' state') [0..<length (val (routes props'))]
                = map (descriptors_at props state) [0..<length (val (routes props))]"
      using same_entries_same_descriptors[OF d] a by blast
    then have "scenes s2 = scenes state'"
      using successive_scenes[OF d d2] a by blast
    then show ?thesis using Some by (simp add: apply_update_def)
  qed
qed

theorem scene_memoization_witness:
  "getDerivedStateFromProps example_imports ex_heap2 ex_props3 ex_state2 = Inr (ex_heap3, Some ex_state3)
   \<and> (0 < length (val (routes ex_props3))
       \<and> nth_opt (scenes ex_state2) (int 0) = Some ex_scene_a2
       \<and> gestures ex_state3 (key (val (val (routes ex_props3) ! 0))) = Some 100
       \<and> memo (val ex_scene_a2)
           = scene_memo ex_props3 ex_state2 (gestures ex_state3) 0 (val (routes ex_props3) ! 0) 100
       \<and> scenes ex_state3 ! 0 = ex_scene_a2)
   \<and> (getDerivedStateFromProps example_imports ex_heap3 ex_props2 ex_state3
         = Inr (ex_heap4, Some ex_state2)
       \<and> val (routes ex_props2) = val (routes ex_props3)
       \<and> map (descriptors_at ex_props2 ex_state3) [0..<length (val (routes ex_props2))]
           = map (descriptors_at ex_props3 ex_state2) [0..<length (val (routes ex_props3))]
       \<and> val (descriptors ex_props2) = val (descriptors ex_props3)
       \<and> dom (val (s_descriptors ex_state2)) \<subseteq> dom (val (descriptors ex_props3))
       \<and> scenes (apply_update ex_state3 (Some ex_state2)) = scenes ex_state3)"
proof -
  have d: "getDerivedStateFromProps example_imports ex_heap2 ex_props3 ex_state2 = Inr (ex_heap3, Some ex_state3)"
    by (rule third_derivation)
  have p1: "0 < length (val (routes ex_props3))
       \<and> nth_opt (scenes ex_state2) (int 0) = Some ex_scene_a2
       \<and> gestures ex_state3 (key (val (val (routes ex_props3) ! 0))) = Some 100
       \<and> memo (val ex_scene_a2)
           = scene_memo ex_props3 ex_state2 (gestures ex_state3) 0 (val (routes ex_props3) ! 0) 100"
    by (simp add: example_defs scene_memo_def resolve_descriptor_def adjacent_descriptor_def
          adjacent_gesture_def nextRoute_def previousRoute_def nth_opt_def optional_key_def)
  have p2: "getDerivedStateFromProps example_imports ex_heap3 ex_props2 ex_state3 = Inr (ex_heap4, Some ex_state2)
       \<and> val (routes ex_props2) = val (routes ex_props3)
       \<and> val (descriptors ex_props2) = val (descriptors ex_props3)
       \<and> dom (val (s_descriptors ex_state2)) \<subseteq> dom (val (descriptors ex_props3))"
    using fourth_derivation by (simp add: ex_props2_def ex_props3_def ex_state2_def)
  have p3: "map (descriptors_at ex_props2 ex_state3) [0..<length (val (routes ex_props2))]
           = map (descriptors_at ex_props3 ex_state2) [0..<length (val (routes ex_props3))]"
    by (simp add: example_defs descriptors_at_def resolve_descriptor_def
          adjacent_descriptor_def nextRoute_def previousRoute_def nth_opt_def optional_key_def
          upt_rec)
  show ?thesis
    using d p1 p2 p3
      scene_memoization[OF d, of 0 ex_scene_a2 100 ex_props2 ex_heap4 "Some ex_state2"]
    by blast
qed

text \<open>
  Unchanged routes, layout and descriptors alone do not keep every scene. In the example the
  state still holds a descriptor for \<open>b\<close> that the props no longer have: the first derivation
  resolves it as the next descriptor of \<open>a\<close>, the second one, with the same routes and the
  same descriptors in its props, finds none, and builds a new scene for \<open>a\<close>.
\<close>

theorem scene_memoization_counterexample:
  "getDerivedStateFromProps example_imports ex_heap2 ex_props_drop ex_state2
     = Inr (ex_heap3, Some ex_state_drop1)
   \<and> getDerivedStateFromProps example_imports ex_heap3 ex_props_drop2 ex_state_drop1
     = Inr (ex_heap4, Some ex_state_drop2)
   \<and> val (routes ex_props_drop2) = val (routes ex_props_drop)
   \<and> val (descriptors ex_props_drop2) = val (descriptors ex_props_drop)
   \<and> layout ex_state_drop1 = layout ex_state2
   \<and> layout ex_state_drop2 = layout ex_state_drop1
   \<and> scenes ex_state_drop2 ! 0 \<noteq> scenes ex_state_drop1 ! 0"
  using drop_derivation drop_derivation2
  by (simp add: drop_defs ex_state2_def ex_scene_a2_def)

subsection \<open>C3: initial value of a new tracker\<close>



subsection \<open>C4: trackers persist\<close>

text \<open>
  Claim C4. Once a route key has a gesture tracker, it keeps that same tracker through every
  later sequence of events (new props, layout events, header layout events) in which each
  route list received still contains a route with that key: every derivation maps the key to
  the tracker it had, never to a new one.
\<close>

theorem tracker_identity_kept:
  assumes "gestures (c_state c) k = Some g"
    and "k \<in> route_keys (c_props c)"
    and "\<forall>e \<in> set es. \<forall>p. received e = Some p \<longrightarrow> k \<in> route_keys p"
  shows "\<exists>c'. run env c es = Inr c' \<and> gestures (c_state c') k = Some g"
  using assms
proof (induction es arbitrary: c)
  case Nil
  then show ?case by simp
next
  case (Cons e es)
  obtain c1 where c1: "dispatch env c e = Inr c1" using dispatch_total by blast
  have "gestures (c_state c1) k = Some g \<and> k \<in> route_keys (c_props c1)"
    by (rule dispatch_gesture_kept[OF c1 Cons.prems(1,2)]) (use Cons.prems(3) in auto)
  then obtain c' where "run env c1 es = Inr c' \<and> gestures (c_state c') k = Some g"
    using Cons.IH[of c1] Cons.prems(3) by auto
  then show ?case using c1 by simp
qed

theorem tracker_identity_kept_witness:
  "gestures (c_state ex_component1) ''a'' = Some 100
   \<and> ''a'' \<in> route_keys (c_props ex_component1)
   \<and> ''a'' \<in> route_keys ex_props2 \<and> ''a'' \<in> route_keys ex_props3
   \<and> (\<exists>c'. run example_imports ex_component1
               [ReceiveProps ex_props2, LayoutEvent 360 640, ReceiveProps ex_props3] = Inr c'
           \<and> gestures (c_state c') ''a'' = Some 100)"
proof -
  have a: "gestures (c_state ex_component1) ''a'' = Some 100"
    by (simp add: ex_component1_def ex_state1_def)
  have b: "''a'' \<in> route_keys (c_props ex_component1)"
    by (simp add: ex_component1_def ex_props1_def route_keys_def route_a_def)
  have c: "\<forall>e \<in> set [ReceiveProps ex_props2, LayoutEvent 360 640, ReceiveProps ex_props3].
         \<forall>p. received e = Some p \<longrightarrow> ''a'' \<in> route_keys p"
    by (simp add: ex_props2_def ex_props3_def route_keys_def route_a_def)
  have d: "''a'' \<in> route_keys ex_props2 \<and> ''a'' \<in> route_keys ex_props3"
    by (simp add: ex_props2_def ex_props3_def route_keys_def route_a_def)
  show ?thesis using a b d tracker_identity_kept[OF a b c, of example_imports] by blast
qed

subsection \<open>C5: activity windowing\<close>

text \<open>
  Claim C5. The limit that render uses is the \<^verbatim>\<open>activeLimit\<close> prop if it is given, and
  otherwise 2 in modal mode and 1 in card mode. The \<^verbatim>\<open>active\<close> value of the screen at
  \<open>index\<close> is 1 when there is no scene at \<open>index\<close> plus this limit; otherwise it is that
  scene's current progress interpolated from \<open>[0, 1 - 0.01, 1]\<close> to \<open>[1, 1, 0]\<close> with
  clamping, a number between 0 and 1 that is 0 exactly when the progress has reached 1 and 1
  exactly when the progress is at most 0.99. So when every scene is settled at progress 1,
  the screen at \<open>index\<close> is active exactly when \<open>index\<close> plus the limit is not below the
  number of scenes: of four idle routes only the top one with limit 1, and the top two with
  limit 2.
\<close>

theorem activity_windowing:
  "resolved_activeLimit props
     = (case activeLimit props of
          None \<Rightarrow> (if mode props = Modal then 2 else 1)
        | Some n \<Rightarrow> n)
   \<and> EPSILON = 0.01
   \<and> (nth_opt scs (int index + int (resolved_activeLimit props)) = None
      \<longrightarrow> active_value h (isScreenActive props scs index) = Some 1)
   \<and> (nth_opt scs (int index + int (resolved_activeLimit props)) = Some sc
       \<and> getValue h (current (progress (val sc))) = Some p
      \<longrightarrow> active_value h (isScreenActive props scs index)
            = interpolate \<lparr>inputRange = [0, 1 - EPSILON, 1], outputRange = [1, 1, 0],
                           extrapolate = Clamp\<rparr> p
          \<and> (\<exists>v. active_value h (isScreenActive props scs index) = Some v
                 \<and> 0 \<le> v \<and> v \<le> 1 \<and> (v = 0 \<longleftrightarrow> 1 \<le> p) \<and> (v = 1 \<longleftrightarrow> p \<le> 1 - EPSILON)))
   \<and> ((\<forall>s \<in> set scs. getValue h (current (progress (val s))) = Some 1)
      \<longrightarrow> active_value h (isScreenActive props scs index)
            = Some (if index + resolved_activeLimit props < length scs then 0 else 1))"
proof (intro conjI impI)
  show "resolved_activeLimit props
     = (case activeLimit props of
          None \<Rightarrow> (if mode props = Modal then 2 else 1)
        | Some n \<Rightarrow> n)"
    by (simp add: resolved_activeLimit_def)
  show "EPSILON = 0.01" by (simp add: EPSILON_def)
  show "active_value h (isScreenActive props scs index) = Some 1"
    if "nth_opt scs (int index + int (resolved_activeLimit props)) = None"
    using that by (simp add: isScreenActive_def)
next
  assume a: "nth_opt scs (int index + int (resolved_activeLimit props)) = Some sc
       \<and> getValue h (current (progress (val sc))) = Some p"
  then show eq: "active_value h (isScreenActive props scs index)
            = interpolate \<lparr>inputRange = [0, 1 - EPSILON, 1], outputRange = [1, 1, 0],
                           extrapolate = Clamp\<rparr> p"
    by (simp add: isScreenActive_def)
  let ?v = "if p \<le> 1 - EPSILON then 1 else if 1 \<le> p then 0 else (1 - p) / EPSILON"
  have v: "active_value h (isScreenActive props scs index) = Some ?v"
    using eq by (simp only: activity_interpolation)
  have "0 \<le> ?v \<and> ?v \<le> 1 \<and> (?v = 0 \<longleftrightarrow> 1 \<le> p) \<and> (?v = 1 \<longleftrightarrow> p \<le> 1 - EPSILON)"
    by (auto simp: EPSILON_def field_simps)
  with v show "\<exists>v. active_value h (isScreenActive props scs index) = Some v
                 \<and> 0 \<le> v \<and> v \<le> 1 \<and> (v = 0 \<longleftrightarrow> 1 \<le> p) \<and> (v = 1 \<longleftrightarrow> p \<le> 1 - EPSILON)"
    by blast
next
  assume idle: "\<forall>s \<in> set scs. getValue h (current (progress (val s))) = Some 1"
  let ?limit = "resolved_activeLimit props"
  show "active_value h (isScreenActive props scs index)
            = Some (if index + ?limit < length scs then 0 else 1)"
  proof (cases "index + ?limit < length scs")
    case True
    then have n: "nth_opt scs (int index + int ?limit) = Some (scs ! (index + ?limit))"
      by (rule nth_opt_sum_Some)
    have "getValue h (current (progress (val (scs ! (index + ?limit))))) = Some 1"
      using idle True by simp
    then have "active_value h (isScreenActive props scs index)
        = interpolate \<lparr>inputRange = [0, 1 - EPSILON, 1], outputRange = [1, 1, 0],
                       extrapolate = Clamp\<rparr> 1"
      using n by (simp add: isScreenActive_def)
    moreover have "interpolate \<lparr>inputRange = [0, 1 - EPSILON, 1], outputRange = [1, 1, 0],
                       extrapolate = Clamp\<rparr> 1 = Some 0"
      unfolding activity_interpolation by (simp add: EPSILON_def)
    ultimately show ?thesis using True by simp
  next
    case False
    then have "nth_opt scs (int index + int ?limit) = None"
      by (simp add: nth_opt_None_iff)
    then show ?thesis using False by (simp add: isScreenActive_def)
  qed
qed

theorem activity_windowing_witness:
  "activeLimit ex_props4 = None \<and> mode ex_props4 = Card
   \<and> resolved_activeLimit ex_props4 = 1
   \<and> resolved_activeLimit (ex_props4\<lparr>activeLimit := Some 2\<rparr>) = 2
   \<and> resolved_activeLimit (ex_props4\<lparr>mode := Modal\<rparr>) = 2
   \<and> map (\<lambda>s. getValue (fst ex_stack4) (current (progress (val s))))
        (scenes (snd ex_stack4)) = [Some 1, Some 1, Some 1, Some 1]
   \<and> map (\<lambda>i. active_value (fst ex_stack4)
                 (isScreenActive ex_props4 (scenes (snd ex_stack4)) i))
        [0, 1, 2, 3] = [Some 0, Some 0, Some 0, Some 1]
   \<and> map (\<lambda>i. active_value (fst ex_stack4)
                 (isScreenActive (ex_props4\<lparr>activeLimit := Some 2\<rparr>) (scenes (snd ex_stack4)) i))
        [0, 1, 2, 3] = [Some 0, Some 0, Some 1, Some 1]
   \<and> map (\<lambda>i. active_value (fst ex_stack4)
                 (isScreenActive (ex_props4\<lparr>mode := Modal\<rparr>) (scenes (snd ex_stack4)) i))
        [0, 1, 2, 3] = [Some 0, Some 0, Some 1, Some 1]"
proof -
  have a: "activeLimit ex_props4 = None" "mode ex_props4 = Card"
    by (simp_all add: ex_props4_def)
  note w = activity_windowing[where scs = "scenes (snd ex_stack4)" and h = "fst ex_stack4"]
  have l: "resolved_activeLimit ex_props4 = 1"
    "resolved_activeLimit (ex_props4\<lparr>activeLimit := Some 2\<rparr>) = 2"
    "resolved_activeLimit (ex_props4\<lparr>mode := Modal\<rparr>) = 2"
    using a w[where props = ex_props4, THEN conjunct1]
      w[where props = "ex_props4\<lparr>activeLimit := Some 2\<rparr>", THEN conjunct1]
      w[where props = "ex_props4\<lparr>mode := Modal\<rparr>", THEN conjunct1]
    by simp_all
  have act: "active_value (fst ex_stack4) (isScreenActive q (scenes (snd ex_stack4)) i)
      = Some (if i + resolved_activeLimit q < 4 then 0 else 1)" for i q
    using w[where props = q and index = i] ex_stack4_idle
    by (simp add: ex_stack4_length)
  have idle: "map (\<lambda>s. getValue (fst ex_stack4) (current (progress (val s))))
        (scenes (snd ex_stack4)) = [Some 1, Some 1, Some 1, Some 1]"
  proof -
    have "map (getValue (fst ex_stack4))
            (map (\<lambda>sc. current (progress (val sc))) (scenes (snd ex_stack4)))
          = [Some 1, Some 1, Some 1, Some 1]"
      unfolding ex_stack4_progress
      by (simp add: ex_stack4_heap interpolate_def checkValidRanges_def interpolate_segment_def)
    then show ?thesis by (simp add: comp_def)
  qed
  show ?thesis
    using a l idle by (simp add: act)
qed

subsection \<open>C6: transition configuration\<close>

text \<open>
  Claim C6. A screen that is not at the last index and has a next scene gets the transition
  configuration resolved from the options of the next scene's descriptor; the screen at the
  last index gets it from its own. Either way each of the four entries is the option if it
  is given and the preset's entry otherwise, except that a missing \<^verbatim>\<open>cardStyleInterpolator\<close>
  is \<^verbatim>\<open>forNoAnimation\<close> when \<^verbatim>\<open>animationEnabled\<close> of these options is \<^verbatim>\<open>false\<close>. The preset
  is the modal or the default transition by mode, with the header interpolator replaced in
  header mode \<^verbatim>\<open>screen\<close>.
\<close>

theorem transition_config_borrowing:
  "(nth_opt scs (int index) = Some scene \<and> int index \<noteq> int len - 1
       \<and> nth_opt scs (int index + 1) = Some nextScene
      \<longrightarrow> transitionConfig preset scs index len
          = Inr (config_of_options preset (options (val (descriptor (val nextScene))))))
   \<and> (nth_opt scs (int index) = Some scene \<and> int index = int len - 1
      \<longrightarrow> transitionConfig preset scs index len
          = Inr (config_of_options preset (options (val (descriptor (val scene))))))
   \<and> config_of_options preset opts =
        \<lparr>p_gestureDirection =
           (case gestureDirection opts of None \<Rightarrow> p_gestureDirection preset | Some v \<Rightarrow> v),
         p_transitionSpec =
           (case transitionSpec opts of None \<Rightarrow> p_transitionSpec preset | Some v \<Rightarrow> v),
         p_cardStyleInterpolator =
           (case cardStyleInterpolator opts of
              None \<Rightarrow> (if animationEnabled opts = Some False
                       then forNoAnimationCard
                       else p_cardStyleInterpolator preset)
            | Some v \<Rightarrow> v),
         p_headerStyleInterpolator =
           (case headerStyleInterpolator opts of
              None \<Rightarrow> p_headerStyleInterpolator preset
            | Some v \<Rightarrow> v)\<rparr>
   \<and> (animationEnabled opts = Some False \<and> cardStyleInterpolator opts = None
      \<longrightarrow> p_cardStyleInterpolator (config_of_options preset opts) = forNoAnimationCard)
   \<and> defaultTransitionPreset env m hm =
        (if hm = Screen
         then (if m = Modal then ModalTransition env else DefaultTransition env)
                \<lparr>p_headerStyleInterpolator := forNoAnimationHeader\<rparr>
         else (if m = Modal then ModalTransition env else DefaultTransition env))"
proof (intro conjI impI)
  assume "nth_opt scs (int index) = Some scene \<and> int index \<noteq> int len - 1
       \<and> nth_opt scs (int index + 1) = Some nextScene"
  then show "transitionConfig preset scs index len
          = Inr (config_of_options preset (options (val (descriptor (val nextScene)))))"
    by (simp add: transitionConfig_def Let_def)
next
  assume "nth_opt scs (int index) = Some scene \<and> int index = int len - 1"
  then show "transitionConfig preset scs index len
          = Inr (config_of_options preset (options (val (descriptor (val scene)))))"
    by (auto simp: transitionConfig_def Let_def)
next
  assume "animationEnabled opts = Some False \<and> cardStyleInterpolator opts = None"
  then show "p_cardStyleInterpolator (config_of_options preset opts) = forNoAnimationCard"
    by (simp add: config_of_options_def)
qed (simp_all add: config_of_options_def defaultTransitionPreset_def Let_def)

theorem transition_config_borrowing_witness:
  "nth_opt (scenes (snd ex_stack4)) (int 1) = Some (scenes (snd ex_stack4) ! 1)
   \<and> int 1 \<noteq> int 4 - 1
   \<and> nth_opt (scenes (snd ex_stack4)) (int 1 + 1) = Some (scenes (snd ex_stack4) ! 2)
   \<and> gestureDirection (options (val (descriptor (val (scenes (snd ex_stack4) ! 1)))))
        = Some Vertical
   \<and> transitionConfig (defaultTransitionPreset example_imports Card Float)
        (scenes (snd ex_stack4)) 1 4 = Inr (DefaultTransition example_imports)
   \<and> p_gestureDirection (DefaultTransition example_imports) = Horizontal
   \<and> nth_opt (scenes (snd ex_stack4)) (int 3) = Some (scenes (snd ex_stack4) ! 3)
   \<and> int 3 = int 4 - 1
   \<and> animationEnabled (options (val descriptor_d)) = Some False
   \<and> cardStyleInterpolator (options (val descriptor_d)) = None
   \<and> transitionConfig (defaultTransitionPreset example_imports Card Float)
        (scenes (snd ex_stack4)) 3 4
        = Inr ((DefaultTransition example_imports)
                 \<lparr>p_cardStyleInterpolator := forNoAnimationCard\<rparr>)"
proof -
  let ?scs = "scenes (snd ex_stack4)"
  let ?preset = "defaultTransitionPreset example_imports Card Float"
  have n: "nth_opt ?scs (int 1) = Some (?scs ! 1)" "nth_opt ?scs (int 1 + 1) = Some (?scs ! 2)"
    "nth_opt ?scs (int 3) = Some (?scs ! 3)"
    using ex_stack4_nth[of 1] ex_stack4_nth[of 2] ex_stack4_nth[of 3] by simp_all
  have d: "descriptor (val (?scs ! 1)) = descriptor_b" "descriptor (val (?scs ! 2)) = descriptor_c"
    "descriptor (val (?scs ! 3)) = descriptor_d"
    using ex_stack4_descriptor_nth[of 1] ex_stack4_descriptor_nth[of 2]
      ex_stack4_descriptor_nth[of 3] by simp_all
  have o: "options (val descriptor_b) = no_options\<lparr>gestureDirection := Some Vertical\<rparr>"
    "options (val descriptor_c) = no_options"
    "options (val descriptor_d) = no_options\<lparr>animationEnabled := Some False\<rparr>"
    by (simp_all add: descriptor_b_def descriptor_c_def descriptor_d_def)
  have p: "?preset = DefaultTransition example_imports"
    by (simp add: defaultTransitionPreset_def)
  note t = transition_config_borrowing[where scs = ?scs and len = 4 and preset = ?preset
      and opts = no_options and env = example_imports and m = Card and hm = Float]
  have c1: "transitionConfig ?preset ?scs 1 4
      = Inr (config_of_options ?preset (options (val (descriptor (val (?scs ! 2))))))"
    using t[where index = 1 and scene = "?scs ! 1" and nextScene = "?scs ! 2", THEN conjunct1] n
    by simp
  have c3: "transitionConfig ?preset ?scs 3 4
      = Inr (config_of_options ?preset (options (val (descriptor (val (?scs ! 3))))))"
    using t[where index = 3 and scene = "?scs ! 3" and nextScene = "?scs ! 3",
        THEN conjunct2, THEN conjunct1] n
    by simp
  have g: "gestureDirection (options (val (descriptor (val (?scs ! 1))))) = Some Vertical"
    using d by (simp add: o no_options_def)
  have r1: "transitionConfig ?preset ?scs 1 4 = Inr (DefaultTransition example_imports)"
    using c1 d by (simp add: o p config_of_options_def no_options_def)
  have r3: "transitionConfig ?preset ?scs 3 4
      = Inr ((DefaultTransition example_imports)\<lparr>p_cardStyleInterpolator := forNoAnimationCard\<rparr>)"
    using c3 d by (simp add: o p config_of_options_def no_options_def)
  have e: "int 1 \<noteq> int 4 - 1" "int 3 = int 4 - 1"
    "p_gestureDirection (DefaultTransition example_imports) = Horizontal"
    "animationEnabled (options (val descriptor_d)) = Some False"
    "cardStyleInterpolator (options (val descriptor_d)) = None"
    by (simp_all add: example_imports_def o no_options_def)
  show ?thesis using n g r1 r3 e by blast
qed

subsection \<open>C7: header heights recomputed\<close>

text \<open>
  Claim C7. The recomputed map has exactly the keys of the routes given. For each of these
  routes the height is the explicit numeric \<^verbatim>\<open>headerStyle.height\<close> if there is one, else the
  height the previous map has for the key, else the default header height for the layout and
  the resolved status bar height. So a route with a previous height \<open>H\<close> and no explicit
  height keeps \<open>H\<close>.
\<close>

theorem header_heights_recomputed:
  "dom (getHeaderHeights env rs ins ds lay prev) = (\<lambda>r. key (val r)) ` set rs
   \<and> (r \<in> set rs
        \<longrightarrow> getHeaderHeights env rs ins ds lay prev (key (val r))
            = Some (case explicit_height ds (key (val r)) of
                      Some n \<Rightarrow> n
                    | None \<Rightarrow>
                        (case prev (key (val r)) of
                           Some H \<Rightarrow> H
                         | None \<Rightarrow> getDefaultHeaderHeight env lay
                                     (status_bar_height ins ds (key (val r))))))
   \<and> (r \<in> set rs \<and> explicit_height ds (key (val r)) = None \<and> prev (key (val r)) = Some H
        \<longrightarrow> getHeaderHeights env rs ins ds lay prev (key (val r)) = Some H)"
  using getHeaderHeights_lookup[of r rs env ins ds lay prev]
  by (auto simp: getHeaderHeights_dom headerHeightOf_formula)

theorem header_heights_recomputed_witness:
  "route_b \<in> set [route_a, route_b]
   \<and> explicit_height [''a'' \<mapsto> descriptor_a_tall] (key (val route_b)) = None
   \<and> [''b'' \<mapsto> 64, ''c'' \<mapsto> 70] (key (val route_b)) = Some (64::real)
   \<and> dom (getHeaderHeights example_imports [route_a, route_b] example_insets
             [''a'' \<mapsto> descriptor_a_tall] (val example_layout) [''b'' \<mapsto> 64, ''c'' \<mapsto> 70])
        = {''a'', ''b''}
   \<and> getHeaderHeights example_imports [route_a, route_b] example_insets
         [''a'' \<mapsto> descriptor_a_tall] (val example_layout) [''b'' \<mapsto> 64, ''c'' \<mapsto> 70]
         (key (val route_b)) = Some 64"
proof -
  have a: "route_b \<in> set [route_a, route_b]" by simp
  have b: "explicit_height [''a'' \<mapsto> descriptor_a_tall] (key (val route_b)) = None"
    by (simp add: explicit_height_def route_b_def)
  have c: "[''b'' \<mapsto> 64, ''c'' \<mapsto> 70] (key (val route_b)) = Some (64::real)"
    by (simp add: route_b_def)
  have d: "(\<lambda>r. key (val r)) ` set [route_a, route_b] = {''a'', ''b''}"
    by (simp add: route_a_def route_b_def)
  show ?thesis
    using a b c d
      header_heights_recomputed[of example_imports "[route_a, route_b]" example_insets
        "[''a'' \<mapsto> descriptor_a_tall]" "val example_layout" "[''b'' \<mapsto> 64, ''c'' \<mapsto> 70]"
        route_b 64]
    by simp
qed

subsection \<open>C8: recording a measured header height\<close>

text \<open>
  Claim C8. Recording a measured header height that equals the stored one returns
  \<^verbatim>\<open>null\<close>, and the component is left as it is (no render pass, no recomputation).
  Otherwise the update sets the entry of this route's key to the new height and changes
  nothing else: no other key, no other field of the state.
\<close>

theorem header_layout_recorded:
  "(headerHeights state (key (val r)) = Some ht
      \<longrightarrow> handleHeaderLayout r ht state = None)
   \<and> (headerHeights (c_state c) (key (val r)) = Some ht
      \<longrightarrow> dispatch env c (HeaderLayoutEvent r ht) = Inr c)
   \<and> (headerHeights state (key (val r)) \<noteq> Some ht
      \<longrightarrow> (\<exists>s'. handleHeaderLayout r ht state = Some s'
             \<and> headerHeights s' (key (val r)) = Some ht
             \<and> (\<forall>k. k \<noteq> key (val r) \<longrightarrow> headerHeights s' k = headerHeights state k)
             \<and> s' = state\<lparr>headerHeights := headerHeights s'\<rparr>))"
  by (simp add: handleHeaderLayout_def Let_def)

theorem header_layout_recorded_witness:
  "headerHeights ex_state2 (key (val route_a)) = Some 100
   \<and> handleHeaderLayout route_a 100 ex_state2 = None
   \<and> headerHeights ex_state2 (key (val route_b)) \<noteq> Some 88
   \<and> (\<exists>s'. handleHeaderLayout route_b 88 ex_state2 = Some s'
          \<and> headerHeights s' ''b'' = Some 88 \<and> headerHeights s' ''a'' = Some 100)"
proof -
  have a: "headerHeights ex_state2 (key (val route_a)) = Some 100"
    by (simp add: ex_state2_def route_a_def)
  have b: "headerHeights ex_state2 (key (val route_b)) \<noteq> Some 88"
    by (simp add: ex_state2_def route_b_def)
  have k: "key (val route_b) = ''b''" "''a'' \<noteq> key (val route_b)"
    by (simp_all add: route_b_def)
  have old: "headerHeights ex_state2 ''a'' = Some 100" by (simp add: ex_state2_def)
  from header_layout_recorded[of ex_state2 route_b 88] b
  obtain s' where s': "handleHeaderLayout route_b 88 ex_state2 = Some s'"
    "headerHeights s' (key (val route_b)) = Some 88"
    "\<forall>k. k \<noteq> key (val route_b) \<longrightarrow> headerHeights s' k = headerHeights ex_state2 k"
    by blast
  from s'(3) k(2) old have "headerHeights s' ''a'' = Some 100" by simp
  with s'(1,2) k(1) have "\<exists>s'. handleHeaderLayout route_b 88 ex_state2 = Some s'
          \<and> headerHeights s' ''b'' = Some 88 \<and> headerHeights s' ''a'' = Some 100"
    by auto
  then show ?thesis
    using a b header_layout_recorded[of ex_state2 route_a 100] by blast
qed

subsection \<open>C9: clamping of the layout\<close>

text \<open>
  Claim C9, as the code has it. The progress mapper computes its distance from the layout
  with width and height raised to at least 1, so for every layout the input range of the
  interpolation is non-degenerate (its ends differ by the magnitude of that distance, at
  least 1). The gestures reducer initialises a new tracker from the layout as the state
  holds it, without raising its dimensions.
\<close>

theorem progress_range_nondegenerate:
  "(\<exists>lo hi outs.
      getProgressFromGesture env m g lay d
        = Interpolation g \<lparr>inputRange = [lo, hi], outputRange = outs, extrapolate = Extend\<rparr>
      \<and> lo < hi \<and> 1 \<le> hi - lo
      \<and> hi - lo = \<bar>getDistanceFromOptions env m
                      \<lparr>width = max 1 (width lay), height = max 1 (height lay)\<rparr> d\<bar>)
   \<and> (gestures state (key (val r)) = None
      \<longrightarrow> tracked (fresh (fst hacc)) (key (val r))
            (initial_gesture_value env props state (key (val r)))
            (gestures_step env props state hacc r))"
proof
  let ?dist = "getDistanceFromOptions env m
                 \<lparr>width = max 1 (width lay), height = max 1 (height lay)\<rparr> d"
  have abs: "1 \<le> \<bar>?dist\<bar>" by (rule distance_clamped_abs)
  show "\<exists>lo hi outs.
      getProgressFromGesture env m g lay d
        = Interpolation g \<lparr>inputRange = [lo, hi], outputRange = outs, extrapolate = Extend\<rparr>
      \<and> lo < hi \<and> 1 \<le> hi - lo \<and> hi - lo = \<bar>?dist\<bar>"
  proof (cases "?dist > 0")
    case True
    then have "getProgressFromGesture env m g lay d
        = Interpolation g \<lparr>inputRange = [0, ?dist], outputRange = [1, 0], extrapolate = Extend\<rparr>"
      by (simp add: getProgressFromGesture_def Let_def)
    moreover have "0 < ?dist \<and> 1 \<le> ?dist - 0 \<and> ?dist - 0 = \<bar>?dist\<bar>" using True abs by simp
    ultimately show ?thesis by blast
  next
    case False
    then have "getProgressFromGesture env m g lay d
        = Interpolation g \<lparr>inputRange = [?dist, 0], outputRange = [0, 1], extrapolate = Extend\<rparr>"
      by (simp add: getProgressFromGesture_def Let_def)
    moreover have "?dist < 0 \<and> 1 \<le> 0 - ?dist \<and> 0 - ?dist = \<bar>?dist\<bar>" using False abs by simp
    ultimately show ?thesis by blast
  qed
next
  show "gestures state (key (val r)) = None
      \<longrightarrow> tracked (fresh (fst hacc)) (key (val r))
            (initial_gesture_value env props state (key (val r)))
            (gestures_step env props state hacc r)"
    by (simp add: gestures_step_new)
qed

theorem progress_range_nondegenerate_witness:
  "gestures ex_state_unmeasured (key (val route_a)) = None
   \<and> initial_gesture_value example_imports ex_props_opening ex_state_unmeasured ''a'' = 0
   \<and> tracked 100 ''a'' 0
        (gestures_step example_imports ex_props_opening ex_state_unmeasured
           (ex_heap0, Map.empty) route_a)"
proof -
  have a: "gestures ex_state_unmeasured (key (val route_a)) = None"
    by (simp add: ex_state_unmeasured_def ex_state0_def)
  have b: "initial_gesture_value example_imports ex_props_opening ex_state_unmeasured ''a'' = 0"
    by (simp add: initial_gesture_value_def example_defs ex_props_opening_def
          ex_state_unmeasured_def getDistanceFromOptions_def getDistanceForDirection_def
          no_options_def)
  have c: "key (val route_a) = ''a''" "fresh (fst (ex_heap0, Map.empty)) = 100"
    by (simp_all add: route_a_def ex_heap0_def)
  show ?thesis
    using a b c
      progress_range_nondegenerate[of example_imports Card "Value 100"
        "val (layout ex_state_unmeasured)" None ex_state_unmeasured route_a
        "(ex_heap0, Map.empty)" ex_props_opening]
    by simp
qed

text \<open>
  With a layout of 0 by 0 (the constructor's default before any measurement) an opening
  route gets a tracker at 0, the distance of the unclamped layout, while the distance of the
  clamped layout is 1.
\<close>

theorem tracker_initialization_counterexample:
  "val (layout ex_state_unmeasured) = \<lparr>width = 0, height = 0\<rparr>
   \<and> snd (gestures_reduce example_imports ex_props_opening ex_state_unmeasured ex_heap0) ''a''
        = Some 100
   \<and> animated (fst (gestures_reduce example_imports ex_props_opening ex_state_unmeasured ex_heap0))
        100 = 0
   \<and> getDistanceFromOptions example_imports Card
        \<lparr>width = max 1 (width (val (layout ex_state_unmeasured))),
         height = max 1 (height (val (layout ex_state_unmeasured)))\<rparr>
        (Some descriptor_a) = 1"
  by (simp add: example_defs ex_props_opening_def ex_state_unmeasured_def gestures_reduce_def
        gestures_step_def new_Animated_Value_def getDistanceFromOptions_def
        getDistanceForDirection_def no_options_def Let_def)

subsection \<open>C10: header heights and incoming descriptors\<close>




end
